theory Spec2Isabelle
  imports Complex_Main
begin

section \<open>Python primitives used by the scripts\<close>

text \<open>
  \<^verbatim>\<open>range(start, stop, step)\<close> on Python's unbounded integers. A positive step counts
  up while the value is below \<open>stop\<close>, a negative step counts down while it is above.
  Python raises \<open>ValueError\<close> for step 0; every call site of the scripts passes a step
  that is a positive constant or was validated positive before the loop, and the model
  yields the empty list there.
\<close>

function py_range :: "int \<Rightarrow> int \<Rightarrow> int \<Rightarrow> int list" where
  "py_range start stop step =
     (if 0 < step \<and> start < stop then start # py_range (start + step) stop step
      else if step < 0 \<and> stop < start then start # py_range (start + step) stop step
      else [])"
  by pat_completeness auto
termination
  by (relation "measure (\<lambda>(start, stop, step).
        nat (if 0 < step then stop - start else start - stop))") auto

declare py_range.simps [simp del]

text \<open>
  Formatting an integer inside an f-string (\<^verbatim>\<open>f"{n}"\<close>): decimal digits, most
  significant first, with a leading minus sign for negative values.
\<close>

definition digit_char :: "nat \<Rightarrow> char" where
  "digit_char d = ''0123456789'' ! d"

function digits :: "nat \<Rightarrow> string" where
  "digits n = (if n < 10 then [digit_char n] else digits (n div 10) @ [digit_char (n mod 10)])"
  by pat_completeness auto
termination
  by (relation "measure id") auto

declare digits.simps [simp del]

definition str_of_int :: "int \<Rightarrow> string" where
  "str_of_int i = (if i < 0 then CHR ''-'' # digits (nat (- i)) else digits (nat i))"

text \<open>The canonical ID string \<^verbatim>\<open>f"{n}_{k}"\<close> of both scripts.\<close>

definition mk_id :: "int \<Rightarrow> int \<Rightarrow> string" where
  "mk_id n k = str_of_int n @ ''_'' @ str_of_int k"

text \<open>\<^verbatim>\<open>K_STEP = 2\<close>, the same constant in the dispatcher and in the archiver.\<close>

definition K_STEP :: int where
  "K_STEP = 2"

section \<open>The reconciler: \<^verbatim>\<open>archive_completed_results.py\<close>\<close>

text \<open>
  \<^verbatim>\<open>check_range_completion(n, kmin, kmax, completed_set)\<close>: the early return for an
  empty or inverted range, then the loop that collects the missing IDs in the order of
  the range.
\<close>

fun missing_loop :: "int \<Rightarrow> string set \<Rightarrow> int list \<Rightarrow> string list \<Rightarrow> string list" where
  "missing_loop n completed_set [] missing_ids = missing_ids"
| "missing_loop n completed_set (k # ks) missing_ids =
     (let individual_id = mk_id n k in
      if individual_id \<notin> completed_set
      then missing_loop n completed_set ks (missing_ids @ [individual_id])
      else missing_loop n completed_set ks missing_ids)"

definition check_range_completion :: "int \<Rightarrow> int \<Rightarrow> int \<Rightarrow> string set \<Rightarrow> bool \<times> string list" where
  "check_range_completion n kmin kmax completed_set =
     (if kmin \<ge> kmax then (False, [])
      else let missing_ids = missing_loop n completed_set (py_range kmin kmax K_STEP) []
           in (missing_ids = [], missing_ids))"


text \<open>
  \<^verbatim>\<open>Path.glob(pattern)\<close> on the names of one directory: \<open>*\<close> matches any run of
  characters, every other character of the two patterns the script uses
  (\<^verbatim>\<open>uni_*_*_*.txt\<close> and \<^verbatim>\<open>*.title\<close>) matches itself.
\<close>

fun glob_match :: "string \<Rightarrow> string \<Rightarrow> bool" where
  "glob_match [] name = (name = [])"
| "glob_match (p # ps) name =
     (if p = CHR ''*''
      then glob_match ps name \<or> (case name of [] \<Rightarrow> False | _ # cs \<Rightarrow> glob_match (p # ps) cs)
      else (case name of [] \<Rightarrow> False | c # cs \<Rightarrow> p = c \<and> glob_match ps cs))"

declare glob_match.simps [simp del]

definition RANGE_PATTERN :: string where
  "RANGE_PATTERN = ''uni_*_*_*.txt''"

definition TITLE_PATTERN :: string where
  "TITLE_PATTERN = ''*.title''"

text \<open>
  The output directory as the archiver sees it: the names of its regular files in
  listing order, and the archive \<^verbatim>\<open>out/archive_ranges.tar\<close> (\<open>None\<close> while it does not
  exist, otherwise the names of its entries). Entries that are not regular files are
  never added and never unlinked by the script and are left out.
\<close>

record out_dir =
  dir_files :: "string list"
  archive :: "string list option"

text \<open>
  What the file system does during one archiver run: \<^verbatim>\<open>tarfile.open\<close>, \<^verbatim>\<open>tar.add\<close> of
  one file and closing the archive may raise \<^verbatim>\<open>TarError\<close>/\<^verbatim>\<open>OSError\<close>, and
  \<^verbatim>\<open>unlink\<close> of one file may raise \<^verbatim>\<open>OSError\<close>.
\<close>

record arch_env =
  tar_open_fails :: bool
  tar_add_fails :: "string \<Rightarrow> bool"
  tar_close_fails :: bool
  unlink_fails :: "string \<Rightarrow> bool"

text \<open>
  The loop \<^verbatim>\<open>for file_path in files_to_archive: tar.add(...)\<close>: it stops at the first
  file whose \<^verbatim>\<open>add\<close> raises; what was added before stays in the archive.
\<close>

fun tar_add_all :: "(string \<Rightarrow> bool) \<Rightarrow> string list \<Rightarrow> string list \<Rightarrow> bool \<times> string list" where
  "tar_add_all fails [] entries = (True, entries)"
| "tar_add_all fails (file_path # rest) entries =
     (if fails file_path then (False, entries)
      else tar_add_all fails rest (entries @ [file_path]))"

text \<open>
  The \<^verbatim>\<open>try\<close> block of the archiving step. The result is the archive afterwards and the
  list \<^verbatim>\<open>files_to_remove_post_archive\<close>: the whole batch after a successful archive
  operation, the empty list after any exception.
\<close>

definition archive_files :: "arch_env \<Rightarrow> string list option \<Rightarrow> string list
    \<Rightarrow> string list option \<times> string list" where
  "archive_files env arch files_to_archive =
     (if tar_open_fails env then (arch, [])
      else let entries = (case arch of None \<Rightarrow> [] | Some es \<Rightarrow> es);
               (added, entries') = tar_add_all (tar_add_fails env) files_to_archive entries
           in if added \<and> \<not> tar_close_fails env then (Some entries', files_to_archive)
              else (Some entries', []))"

text \<open>
  The removal loop: a file that still exists is unlinked, and counted as removed, unless
  \<^verbatim>\<open>unlink\<close> raises, which is counted as a failed removal. The state is the directory
  listing with \<^verbatim>\<open>removed_count\<close> and \<^verbatim>\<open>failed_removal_count\<close>.
\<close>

fun remove_files :: "(string \<Rightarrow> bool) \<Rightarrow> string list \<Rightarrow> string list \<times> int \<times> int
    \<Rightarrow> string list \<times> int \<times> int" where
  "remove_files fails [] st = st"
| "remove_files fails (file_path # rest) (present, removed_count, failed_count) =
     (if file_path \<in> set present
      then (if fails file_path
            then remove_files fails rest (present, removed_count, failed_count + 1)
            else remove_files fails rest
                   (filter (\<lambda>f. f \<noteq> file_path) present, removed_count + 1, failed_count))
      else remove_files fails rest (present, removed_count, failed_count))"

text \<open>
  The archiver from its archiving step on, for a batch \<^verbatim>\<open>files_to_archive\<close>: archive
  (only when the batch is not empty), remove what was archived, then remove every
  \<^verbatim>\<open>*.title\<close> file of the output directory.
\<close>

definition archiver :: "arch_env \<Rightarrow> out_dir \<Rightarrow> string list \<Rightarrow> out_dir" where
  "archiver env d files_to_archive =
     (let (arch', files_to_remove_post_archive) =
            (if files_to_archive \<noteq> [] then archive_files env (archive d) files_to_archive
             else (archive d, []));
          (present, removed_count, failed_removal_count) =
            remove_files (unlink_fails env) files_to_remove_post_archive (dir_files d, 0, 0);
          title_files_found = filter (glob_match TITLE_PATTERN) present;
          (present', removed_titles, failed_titles) =
            remove_files (unlink_fails env) title_files_found (present, 0, 0)
      in \<lparr>dir_files = present', archive = arch'\<rparr>)"

section \<open>The ledger files\<close>

text \<open>
  A tracking file is \<open>None\<close> while it does not exist, otherwise its content, one
  \<open>char\<close> per byte. \<^verbatim>\<open>open(filepath, 'r')\<close> reads in text mode: the bytes are decoded
  with the preferred encoding of the platform, taken to be UTF-8, with the error
  handler \<^verbatim>\<open>strict\<close>. \<open>decode_first\<close> decodes the first code point of a byte sequence
  and returns it with the remaining bytes; it refuses a stray continuation byte, a
  truncated sequence, an overlong form, a surrogate and a code point above
  \<^verbatim>\<open>U+10FFFF\<close>. \<open>utf8_decode\<close> is \<open>None\<close> where Python raises \<^verbatim>\<open>UnicodeDecodeError\<close>.
\<close>

definition continuation :: "nat \<Rightarrow> bool" where
  "continuation b \<longleftrightarrow> 0x80 \<le> b \<and> b < 0xC0"

definition decode_first :: "nat list \<Rightarrow> (nat \<times> nat list) option" where
  "decode_first bytes =
     (case bytes of
        [] \<Rightarrow> None
      | b0 # r0 \<Rightarrow>
          if b0 < 0x80 then Some (b0, r0)
          else if 0xC2 \<le> b0 \<and> b0 < 0xE0 then
            (case r0 of
               b1 # r1 \<Rightarrow>
                 if continuation b1 then Some ((b0 - 0xC0) * 0x40 + (b1 - 0x80), r1) else None
             | [] \<Rightarrow> None)
          else if 0xE0 \<le> b0 \<and> b0 < 0xF0 then
            (case r0 of
               b1 # b2 # r2 \<Rightarrow>
                 if continuation b1 \<and> continuation b2
                    \<and> (if b0 = 0xE0 then 0xA0 \<le> b1 else if b0 = 0xED then b1 < 0xA0 else True)
                 then Some ((b0 - 0xE0) * 0x1000 + (b1 - 0x80) * 0x40 + (b2 - 0x80), r2)
                 else None
             | _ \<Rightarrow> None)
          else if 0xF0 \<le> b0 \<and> b0 < 0xF5 then
            (case r0 of
               b1 # b2 # b3 # r3 \<Rightarrow>
                 if continuation b1 \<and> continuation b2 \<and> continuation b3
                    \<and> (if b0 = 0xF0 then 0x90 \<le> b1 else if b0 = 0xF4 then b1 < 0x90 else True)
                 then Some ((b0 - 0xF0) * 0x40000 + (b1 - 0x80) * 0x1000
                              + (b2 - 0x80) * 0x40 + (b3 - 0x80), r3)
                 else None
             | _ \<Rightarrow> None)
          else None)"

function utf8_decode :: "nat list \<Rightarrow> nat list option" where
  "utf8_decode [] = Some []"
| "utf8_decode (b # bs) =
     (case decode_first (b # bs) of
        None \<Rightarrow> None
      | Some (point, rest) \<Rightarrow>
          (case utf8_decode rest of None \<Rightarrow> None | Some points \<Rightarrow> Some (point # points)))"
  by pat_completeness auto
termination
  by (relation "measure length")
     (auto simp: decode_first_def split: list.splits if_splits)

declare utf8_decode.simps [simp del]

text \<open>
  A Python \<^verbatim>\<open>str\<close> is a list of code points. Where such a string is kept (the
  elements of the set that \<^verbatim>\<open>load_tracked_ids\<close> returns) it is written as its UTF-8
  encoding, which is one-to-one on decoded text: an ASCII string such as an ID
  \<^verbatim>\<open>f"{n}_{k}"\<close> is its own encoding.
\<close>

definition utf8_encode_point :: "nat \<Rightarrow> nat list" where
  "utf8_encode_point point =
     (if point < 0x80 then [point]
      else if point < 0x800 then [0xC0 + point div 0x40, 0x80 + point mod 0x40]
      else if point < 0x10000
      then [0xE0 + point div 0x1000, 0x80 + point div 0x40 mod 0x40, 0x80 + point mod 0x40]
      else [0xF0 + point div 0x40000, 0x80 + point div 0x1000 mod 0x40,
            0x80 + point div 0x40 mod 0x40, 0x80 + point mod 0x40])"

definition utf8_encode :: "nat list \<Rightarrow> string" where
  "utf8_encode points = map char_of (concat (map utf8_encode_point points))"

text \<open>
  On the decoded text: \<^verbatim>\<open>\r\n\<close> and \<^verbatim>\<open>\r\<close> arrive as \<^verbatim>\<open>\n\<close> (universal newlines),
  and iterating the file yields the lines with their line break. \<^verbatim>\<open>str.strip()\<close>
  removes leading and trailing white space, which for a \<^verbatim>\<open>str\<close> is the Unicode white
  space of \<^verbatim>\<open>str.isspace\<close>: \<^verbatim>\<open>U+0009\<close> to \<^verbatim>\<open>U+000D\<close>, \<^verbatim>\<open>U+001C\<close> to \<^verbatim>\<open>U+0020\<close>,
  \<^verbatim>\<open>U+0085\<close>, \<^verbatim>\<open>U+00A0\<close>, \<^verbatim>\<open>U+1680\<close>, \<^verbatim>\<open>U+2000\<close> to \<^verbatim>\<open>U+200A\<close>, \<^verbatim>\<open>U+2028\<close>,
  \<^verbatim>\<open>U+2029\<close>, \<^verbatim>\<open>U+202F\<close>, \<^verbatim>\<open>U+205F\<close> and \<^verbatim>\<open>U+3000\<close>.
\<close>

fun universal_newlines :: "nat list \<Rightarrow> nat list" where
  "universal_newlines [] = []"
| "universal_newlines [c] = (if c = 0x0D then [0x0A] else [c])"
| "universal_newlines (c # d # cs) =
     (if c = 0x0D \<and> d = 0x0A then 0x0A # universal_newlines cs
      else if c = 0x0D then 0x0A # universal_newlines (d # cs)
      else c # universal_newlines (d # cs))"

fun file_lines :: "nat list \<Rightarrow> nat list list" where
  "file_lines [] = []"
| "file_lines (c # cs) =
     (if c = 0x0A then [c] # file_lines cs
      else (case file_lines cs of [] \<Rightarrow> [[c]] | l # ls \<Rightarrow> (c # l) # ls))"

definition is_space :: "nat \<Rightarrow> bool" where
  "is_space c \<longleftrightarrow>
     (0x09 \<le> c \<and> c \<le> 0x0D) \<or> (0x1C \<le> c \<and> c \<le> 0x20) \<or> c = 0x85 \<or> c = 0xA0
     \<or> c = 0x1680 \<or> (0x2000 \<le> c \<and> c \<le> 0x200A) \<or> c = 0x2028 \<or> c = 0x2029
     \<or> c = 0x202F \<or> c = 0x205F \<or> c = 0x3000"

definition py_strip :: "nat list \<Rightarrow> nat list" where
  "py_strip s = rev (dropWhile is_space (rev (dropWhile is_space s)))"

datatype exit = SysExit int | Crash

text \<open>
  \<^verbatim>\<open>load_tracked_ids(filepath)\<close>: the empty set for a missing file, \<^verbatim>\<open>sys.exit(1)\<close>
  when reading raises \<^verbatim>\<open>IOError\<close> (\<open>read_error\<close>), otherwise the set of the stripped
  non-empty lines. \<^verbatim>\<open>UnicodeDecodeError\<close> is a \<^verbatim>\<open>ValueError\<close>, which the handler
  \<^verbatim>\<open>except IOError\<close> does not catch: the script ends with a traceback (\<open>Crash\<close>).
\<close>

definition load_tracked_ids :: "bool \<Rightarrow> string option \<Rightarrow> exit + string set" where
  "load_tracked_ids read_error file =
     (case file of
        None \<Rightarrow> Inr {}
      | Some content \<Rightarrow>
          if read_error then Inl (SysExit 1)
          else (case utf8_decode (map of_char content) of
                  None \<Rightarrow> Inl Crash
                | Some text \<Rightarrow>
                    Inr (set (map (\<lambda>line. utf8_encode (py_strip line))
                           (filter (\<lambda>line. py_strip line \<noteq> [])
                              (file_lines (universal_newlines text)))))))"

text \<open>
  \<^verbatim>\<open>append_ids_to_file(filepath, ids_to_add)\<close>. The file is opened for appending, which
  creates it, and one line per ID is written. \<open>OpenError\<close>: \<^verbatim>\<open>open\<close> raises and the
  file is as before. \<open>WriteError n\<close>: writing raises after \<open>n\<close> characters of the new
  lines reached the file. The handler prints to stderr and the function returns; the
  result is the file afterwards with what was printed to stderr.
\<close>

datatype io_outcome = IoOk | OpenError | WriteError nat

datatype message =
    TrackingWriteError
  | ConfigWriteError int int
  | QsubNotFoundError
  | QsubFailedError int int int
  | QsubUnexpectedError int int

definition id_lines :: "string list \<Rightarrow> string" where
  "id_lines ids_to_add = concat (map (\<lambda>id_str. id_str @ [CHR 0x0A]) ids_to_add)"

definition append_ids_to_file :: "io_outcome \<Rightarrow> string option \<Rightarrow> string list
    \<Rightarrow> string option \<times> message list" where
  "append_ids_to_file io file ids_to_add =
     (let content = (case file of None \<Rightarrow> [] | Some c \<Rightarrow> c) in
      case io of
        IoOk \<Rightarrow> (Some (content @ id_lines ids_to_add), [])
      | OpenError \<Rightarrow> (file, [TrackingWriteError])
      | WriteError n \<Rightarrow> (Some (content @ take n (id_lines ids_to_add)), [TrackingWriteError]))"

text \<open>\<^verbatim>\<open>Path.touch(exist_ok=True)\<close>: creates the file empty when it is missing.\<close>

definition touch :: "string option \<Rightarrow> string option" where
  "touch file = (case file of None \<Rightarrow> Some [] | Some c \<Rightarrow> Some c)"

section \<open>The dispatcher: \<^verbatim>\<open>run_sqct_one_by_one.py\<close>\<close>

text \<open>
  The module constants as one configuration value: \<^verbatim>\<open>N = 2**M\<close>,
  \<^verbatim>\<open>MAX_K = 2**(M - 1)\<close>, \<^verbatim>\<open>job_k_range_size = NUM_K_PER_JOB * K_STEP\<close>.
  The script itself runs with \<open>source_config\<close>. For \<^verbatim>\<open>M = 0\<close> Python computes the
  float \<^verbatim>\<open>0.5\<close> for \<^verbatim>\<open>MAX_K\<close> and \<^verbatim>\<open>range\<close> raises \<^verbatim>\<open>TypeError\<close>: see \<open>dispatcher\<close>.
\<close>

record config =
  M :: nat
  NUM_K_PER_JOB :: int
  MAX_JOBS :: int

definition source_config :: config where
  "source_config = \<lparr>M = 21, NUM_K_PER_JOB = 512, MAX_JOBS = 128\<rparr>"

definition N :: "config \<Rightarrow> int" where
  "N cfg = 2 ^ M cfg"

definition MAX_K :: "config \<Rightarrow> int" where
  "MAX_K cfg = 2 ^ (M cfg - 1)"

definition job_k_range_size :: "config \<Rightarrow> int" where
  "job_k_range_size cfg = NUM_K_PER_JOB cfg * K_STEP"

definition kmax_actual_of :: "config \<Rightarrow> int \<Rightarrow> int" where
  "kmax_actual_of cfg kmin = min (kmin + job_k_range_size cfg) (MAX_K cfg)"

text \<open>The ranges \<^verbatim>\<open>[kmin, kmax_actual)\<close> in the order in which the main loop visits them.\<close>

definition job_ranges :: "config \<Rightarrow> (int \<times> int) list" where
  "job_ranges cfg =
     map (\<lambda>kmin. (kmin, kmax_actual_of cfg kmin)) (py_range 1 (MAX_K cfg) (job_k_range_size cfg))"

text \<open>
  The inner loop over \<^verbatim>\<open>range(kmin, kmax_actual, K_STEP)\<close>: every ID is appended to
  \<^verbatim>\<open>ids_in_range\<close> before the membership test, and the loop breaks with
  \<^verbatim>\<open>skip_range = True\<close> at the first ID found in \<^verbatim>\<open>started_ids_set\<close>. The result is
  \<^verbatim>\<open>(skip_range, ids_in_range)\<close>. (\<^verbatim>\<open>ids_to_check_count\<close> is never read.)
\<close>

fun scan_ids :: "int \<Rightarrow> string set \<Rightarrow> int list \<Rightarrow> string list \<Rightarrow> bool \<times> string list" where
  "scan_ids n started_ids_set [] ids_in_range = (False, ids_in_range)"
| "scan_ids n started_ids_set (current_k # ks) ids_in_range =
     (let current_id_str = mk_id n current_k;
          ids_in_range' = ids_in_range @ [current_id_str]
      in if current_id_str \<in> started_ids_set then (True, ids_in_range')
         else scan_ids n started_ids_set ks ids_in_range')"

text \<open>
  The effects of a run in the order in which they happen: a call of
  \<^verbatim>\<open>append_ids_to_file\<close> on the Started ledger with its IDs, the writing of a config
  file, the call of \<^verbatim>\<open>qsub\<close> with the job of a range and its IDs, and a line on stderr.
  Progress lines on stdout and the text of the config file and of the PBS script are
  not modelled.
\<close>

datatype qsub_outcome = QsubOk string | QsubNotFound | QsubRejected int | QsubOtherError

datatype event =
    LedgerAppend "string list" io_outcome
  | ConfigWrite int int bool
  | QsubCall int int "string list" qsub_outcome
  | Stderr message

text \<open>
  What the environment does during one run, per range (keyed by its \<open>kmin\<close>): the
  outcome of the ledger append, whether writing the config file raises \<^verbatim>\<open>IOError\<close>,
  and the outcome of \<^verbatim>\<open>subprocess.run(['qsub'], ..., check=True)\<close>: a job id on stdout,
  \<^verbatim>\<open>FileNotFoundError\<close>, \<^verbatim>\<open>CalledProcessError\<close> with its return code, or another
  exception. \<open>prep_ok\<close>: the preparation (copying the layer files and the executable,
  the sanity checks) does not end in \<^verbatim>\<open>sys.exit(1)\<close>. \<open>load_error\<close>: reading the
  Started ledger raises \<^verbatim>\<open>IOError\<close>.
\<close>

record env =
  prep_ok :: bool
  load_error :: bool
  append_io :: "int \<Rightarrow> io_outcome"
  config_error :: "int \<Rightarrow> bool"
  qsub_io :: "int \<Rightarrow> qsub_outcome"

record dstate =
  started_file :: "string option"
  started_ids_set :: "string set"
  submitted_count :: int
  skipped_ranges_count :: int
  error_count :: int
  trace :: "event list"

text \<open>
  Lines 234 to 237: the IDs of the range are appended to the Started ledger, whatever
  the handler printed goes to stderr, and the in-memory set is updated.
\<close>

definition mark_started :: "io_outcome \<Rightarrow> string list \<Rightarrow> dstate \<Rightarrow> dstate" where
  "mark_started io ids_in_range s =
     (let (file', errs) = append_ids_to_file io (started_file s) ids_in_range in
      s\<lparr>started_file := file',
        started_ids_set := started_ids_set s \<union> set ids_in_range,
        trace := trace s @ [LedgerAppend ids_in_range io] @ map Stderr errs\<rparr>)"

text \<open>
  Lines 278 to 316: the call of \<^verbatim>\<open>qsub\<close> and its four handlers. The flag says whether
  the main loop goes on (\<open>True\<close>) or breaks (\<open>False\<close>).
\<close>

definition submit_job :: "qsub_outcome \<Rightarrow> int \<Rightarrow> int \<Rightarrow> string list \<Rightarrow> dstate \<Rightarrow> bool \<times> dstate" where
  "submit_job out kmin kmax_actual ids_in_range s =
     (let s' = s\<lparr>trace := trace s @ [QsubCall kmin kmax_actual ids_in_range out]\<rparr> in
      case out of
        QsubOk job_id \<Rightarrow> (True, s'\<lparr>submitted_count := submitted_count s' + 1\<rparr>)
      | QsubNotFound \<Rightarrow>
          (False, s'\<lparr>error_count := error_count s' + 1,
                     trace := trace s' @ [Stderr QsubNotFoundError]\<rparr>)
      | QsubRejected returncode \<Rightarrow>
          (True, s'\<lparr>error_count := error_count s' + 1,
                    trace := trace s' @ [Stderr (QsubFailedError kmin kmax_actual returncode)]\<rparr>)
      | QsubOtherError \<Rightarrow>
          (True, s'\<lparr>error_count := error_count s' + 1,
                    trace := trace s' @ [Stderr (QsubUnexpectedError kmin kmax_actual)]\<rparr>))"

text \<open>One iteration of the main loop, for the range that starts at \<open>kmin\<close>.\<close>

definition process_range :: "config \<Rightarrow> env \<Rightarrow> int \<Rightarrow> dstate \<Rightarrow> bool \<times> dstate" where
  "process_range cfg env kmin s =
     (if submitted_count s \<ge> MAX_JOBS cfg then (False, s)
      else
        let kmax_actual = kmax_actual_of cfg kmin;
            (skip_range, ids_in_range) =
               scan_ids (N cfg) (started_ids_set s) (py_range kmin kmax_actual K_STEP) []
        in if skip_range
           then (True, s\<lparr>skipped_ranges_count := skipped_ranges_count s + 1\<rparr>)
           else if ids_in_range = []
           then (True, s\<lparr>skipped_ranges_count := skipped_ranges_count s + 1\<rparr>)
           else
             let s1 = mark_started (append_io env kmin) ids_in_range s in
             if config_error env kmin
             then (True, s1\<lparr>error_count := error_count s1 + 1,
                            trace := trace s1 @ [ConfigWrite kmin kmax_actual False,
                                                 Stderr (ConfigWriteError kmin kmax_actual)]\<rparr>)
             else submit_job (qsub_io env kmin) kmin kmax_actual ids_in_range
                    (s1\<lparr>trace := trace s1 @ [ConfigWrite kmin kmax_actual True]\<rparr>))"

fun main_loop :: "config \<Rightarrow> env \<Rightarrow> int list \<Rightarrow> dstate \<Rightarrow> dstate" where
  "main_loop cfg env [] s = s"
| "main_loop cfg env (kmin # rest) s =
     (case process_range cfg env kmin s of
        (True, s') \<Rightarrow> main_loop cfg env rest s'
      | (False, s') \<Rightarrow> s')"

text \<open>
  The script from its first line to \<^verbatim>\<open>sys.exit(0)\<close>, run on the Started ledger
  \<open>file\<close>: the tracking files are touched, \<^verbatim>\<open>NUM_K_PER_JOB\<close> is validated, the
  preparation runs, the Started ledger is loaded, and the main loop visits
  \<^verbatim>\<open>range(1, MAX_K, job_k_range_size)\<close>. \<open>Inr\<close> is the state at \<^verbatim>\<open>sys.exit(0)\<close>.
\<close>

definition dispatcher :: "config \<Rightarrow> env \<Rightarrow> string option \<Rightarrow> exit + dstate" where
  "dispatcher cfg env file =
     (let file' = touch file in
      if NUM_K_PER_JOB cfg \<le> 0 then Inl (SysExit 1)
      else if \<not> prep_ok env then Inl (SysExit 1)
      else case load_tracked_ids (load_error env) file' of
             Inl e \<Rightarrow> Inl e
           | Inr started \<Rightarrow>
               if M cfg = 0 then Inl Crash
               else Inr (main_loop cfg env (py_range 1 (MAX_K cfg) (job_k_range_size cfg))
                      \<lparr>started_file = file', started_ids_set = started,
                       submitted_count = 0, skipped_ranges_count = 0, error_count = 0,
                       trace = []\<rparr>))"

section \<open>The static generator: \<^verbatim>\<open>task_gen.py\<close>\<close>

text \<open>
  The batches \<^verbatim>\<open>(k1, k2)\<close> that \<^verbatim>\<open>generate_config_files\<close> writes for one exponent
  \<open>m\<close>, in the order of the inner loop. The two floor divisions raise
  \<^verbatim>\<open>ZeroDivisionError\<close> for a zero \<^verbatim>\<open>k_step\<close> or \<^verbatim>\<open>k_per_batch\<close>: \<open>None\<close>.
\<close>

definition gen_batches :: "nat \<Rightarrow> int \<Rightarrow> int \<Rightarrow> (int \<times> int) list option" where
  "gen_batches m k_per_batch k_step =
     (let n = (2::int) ^ m;
          max_k = n div 2
      in if k_step = 0 \<or> k_per_batch = 0 then None
         else
           let total_k_values = (max_k - 1) div k_step + 1;
               num_batches = (total_k_values + k_per_batch - 1) div k_per_batch
           in Some (map (\<lambda>batch.
                      let k1 = 1 + batch * k_per_batch * k_step;
                          k2 = min (k1 + k_per_batch * k_step) (max_k + 1)
                      in (k1, k2))
                    (py_range 0 num_batches 1)))"

section \<open>Notions of the specification\<close>

text \<open>
  The constituent IDs of the range \<open>[kmin, kmax)\<close> of \<open>n\<close>: the strings that the loops
  of the dispatcher and of the reconciler build, in their order.
\<close>

definition range_ids :: "int \<Rightarrow> int \<Rightarrow> int \<Rightarrow> string list" where
  "range_ids n kmin kmax = map (mk_id n) (py_range kmin kmax K_STEP)"



text \<open>
  A trace is in order when every \<^verbatim>\<open>qsub\<close> call comes after the call of
  \<^verbatim>\<open>append_ids_to_file\<close> with the same ID list and with the outcome that the
  environment has for the range; \<open>seen\<close> holds the appends so far.
\<close>

fun calls_ordered :: "env \<Rightarrow> (string list \<times> io_outcome) list \<Rightarrow> event list \<Rightarrow> bool" where
  "calls_ordered env seen [] = True"
| "calls_ordered env seen (LedgerAppend ids io # es) = calls_ordered env ((ids, io) # seen) es"
| "calls_ordered env seen (QsubCall kmin kmax ids out # es) =
     ((ids, append_io env kmin) \<in> set seen \<and> calls_ordered env seen es)"
| "calls_ordered env seen (ConfigWrite kmin kmax ok # es) = calls_ordered env seen es"
| "calls_ordered env seen (Stderr msg # es) = calls_ordered env seen es"

fun appended_lists :: "event list \<Rightarrow> (string list \<times> io_outcome) list" where
  "appended_lists [] = []"
| "appended_lists (LedgerAppend ids io # es) = (ids, io) # appended_lists es"
| "appended_lists (e # es) = appended_lists es"





text \<open>
  A list of ranges \<open>[a, b)\<close> covers \<open>[1, hi)\<close> once, with ranges at most \<open>width\<close>
  wide: the starts increase strictly, every range ends where or before each later one
  starts, the union of the ranges is \<open>[1, hi)\<close>, and every range is non-empty and at
  most \<open>width\<close> wide.
\<close>

definition covers_once :: "(int \<times> int) list \<Rightarrow> int \<Rightarrow> int \<Rightarrow> bool" where
  "covers_once rs hi width \<longleftrightarrow>
     sorted_wrt (<) (map fst rs)
     \<and> sorted_wrt (\<lambda>r r'. snd r \<le> fst r') rs
     \<and> (\<Union>(a, b) \<in> set rs. {a..<b}) = {1..<hi}
     \<and> (\<forall>(a, b) \<in> set rs. a < b \<and> b - a \<le> width)"

text \<open>
  The end-to-end example of the specification: \<open>N = 16\<close>, ranges four wide in \<open>k\<close>
  over \<open>[1, 8)\<close>. \<open>calm_env\<close> is an environment in which nothing fails,
  \<open>ledger_down_env\<close> one in which only opening the Started ledger for appending fails,
  and \<open>loaded file started\<close> the state in which the main loop starts.
\<close>

definition small_config :: config where
  "small_config = \<lparr>M = 4, NUM_K_PER_JOB = 2, MAX_JOBS = 128\<rparr>"

definition calm_env :: env where
  "calm_env = \<lparr>prep_ok = True, load_error = False, append_io = (\<lambda>kmin. IoOk),
                config_error = (\<lambda>kmin. False), qsub_io = (\<lambda>kmin. QsubOk ''1.pbs'')\<rparr>"


definition loaded :: "string option \<Rightarrow> string set \<Rightarrow> dstate" where
  "loaded file started =
     \<lparr>started_file = file, started_ids_set = started, submitted_count = 0,
      skipped_ranges_count = 0, error_count = 0, trace = []\<rparr>"

text \<open>
  A configuration with one ID per range: \<open>N = 8\<close> and the ranges \<open>[1, 3)\<close> and
  \<open>[3, 4)\<close>.
\<close>

definition narrow_config :: config where
  "narrow_config = \<lparr>M = 3, NUM_K_PER_JOB = 1, MAX_JOBS = 128\<rparr>"

text \<open>
  An output directory with the three range files of a batch and one title file, no
  archive yet, and an environment in which adding the second file to the archive fails.
\<close>

definition example_batch :: "string list" where
  "example_batch = [''uni_16_1_5.txt'', ''uni_16_5_8.txt'', ''uni_32_1_9.txt'']"

definition example_dir :: out_dir where
  "example_dir = \<lparr>dir_files = example_batch @ [''uni_16_1_5.title''], archive = None\<rparr>"

definition second_add_fails :: arch_env where
  "second_add_fails = \<lparr>tar_open_fails = False,
                        tar_add_fails = (\<lambda>file_path. file_path = ''uni_16_5_8.txt''),
                        tar_close_fails = False,
                        unlink_fails = (\<lambda>file_path. False)\<rparr>"

section \<open>Properties of \<^verbatim>\<open>range\<close>\<close>

lemma py_range_pos_Cons: "0 < s \<Longrightarrow> a < b \<Longrightarrow> py_range a b s = a # py_range (a + s) b s"
  by (subst py_range.simps) simp

lemma py_range_pos_Nil: "0 < s \<Longrightarrow> b \<le> a \<Longrightarrow> py_range a b s = []"
  by (subst py_range.simps) simp

lemma ceil_div_step: 
  fixes a b s :: int
  assumes "0 < s" "a < b"
  shows "nat ((b - a + s - 1) div s) = Suc (nat ((b - (a + s) + s - 1) div s))"
proof -
  have e: "b - a + s - 1 = (b - a - 1) + s" by simp
  have "0 \<le> (b - a - 1) div s"
    using assms by (simp add: pos_imp_zdiv_nonneg_iff)
  moreover have "(b - a + s - 1) div s = (b - a - 1) div s + 1"
    unfolding e using assms by simp
  moreover have "b - (a + s) + s - 1 = b - a - 1" by simp
  ultimately show ?thesis by simp
qed

lemma ceil_div_nonpos:
  fixes a b s :: int
  assumes "0 < s" "b \<le> a"
  shows "nat ((b - a + s - 1) div s) = 0"
proof -
  have "(b - a + s - 1) div s \<le> (s - 1) div s"
    using assms by (intro zdiv_mono1) simp_all
  also have "(s - 1) div s = 0"
    using assms by simp
  finally show ?thesis by simp
qed

lemma py_range_pos_closed:
  "0 < s \<Longrightarrow> py_range a b s = map (\<lambda>i. a + int i * s) [0..<nat ((b - a + s - 1) div s)]"
proof (induction a b s rule: py_range.induct)
  case (1 a b s)
  show ?case
  proof (cases "a < b")
    case True
    have ih: "py_range (a + s) b s = map (\<lambda>i. a + s + int i * s) [0..<nat ((b - (a + s) + s - 1) div s)]"
      using "1.IH"(1) "1.prems" True by simp
    show ?thesis
      unfolding py_range_pos_Cons [OF "1.prems" True] ih ceil_div_step [OF "1.prems" True] map_upt_Suc
      by (simp add: algebra_simps)
  next
    case False
    then show ?thesis
      using "1.prems" by (simp add: py_range_pos_Nil ceil_div_nonpos)
  qed
qed


lemma py_range_pos_mem:
  assumes "0 < s"
  shows "k \<in> set (py_range a b s) \<longleftrightarrow> a \<le> k \<and> k < b \<and> (k - a) mod s = 0"
proof
  assume "k \<in> set (py_range a b s)"
  then obtain i where i: "i < nat ((b - a + s - 1) div s)" and k: "k = a + int i * s"
    using assms by (auto simp: py_range_pos_closed)
  from i have "int i + 1 \<le> (b - a + s - 1) div s" by linarith
  then have "(int i + 1) * s \<le> (b - a + s - 1) div s * s"
    using assms by (simp add: mult_right_mono)
  also have "\<dots> \<le> b - a + s - 1"
    using assms by (metis add.commute add_le_cancel_left mult.commute pos_mod_sign mult_div_mod_eq add_0 add_mono_thms_linordered_semiring(1) le_add_same_cancel1)
  finally have "a + int i * s < b" by (simp add: algebra_simps)
  with k assms show "a \<le> k \<and> k < b \<and> (k - a) mod s = 0" by simp
next
  assume h: "a \<le> k \<and> k < b \<and> (k - a) mod s = 0"
  define i where "i = nat ((k - a) div s)"
  have nn: "0 \<le> (k - a) div s" using h assms by (simp add: pos_imp_zdiv_nonneg_iff)
  have "k - a = (k - a) div s * s" using h by (metis add.right_neutral div_mult_mod_eq)
  then have k: "k = a + int i * s" using nn by (simp add: i_def)
  have "(k - a) div s + 1 = (k - a + s) div s" using assms by simp
  also have "\<dots> \<le> (b - a + s - 1) div s"
    using h assms by (intro zdiv_mono1) simp_all
  finally have "i < nat ((b - a + s - 1) div s)" using nn by (simp add: i_def)
  with k show "k \<in> set (py_range a b s)"
    using assms by (auto simp: py_range_pos_closed)
qed

lemma py_range_pos_sorted: "0 < s \<Longrightarrow> sorted_wrt (<) (py_range a b s)"
  by (simp add: py_range_pos_closed sorted_wrt_map sorted_wrt_upt)


section \<open>Properties of the reconciler\<close>

lemma missing_loop_filter:
  "missing_loop n C ks acc = acc @ filter (\<lambda>i. i \<notin> C) (map (mk_id n) ks)"
  by (induction ks arbitrary: acc) (simp_all add: Let_def)

lemma py_range_two_upto:
  "py_range a b 2 = filter (\<lambda>k. even (k - a)) [a..b - 1]"
proof (induction a b "2::int" rule: py_range.induct)
  case (1 a b)
  show ?case
  proof (cases "a < b")
    case True
    have ih: "py_range (a + 2) b 2 = filter (\<lambda>k. even (k - (a + 2))) [a + 2..b - 1]"
      using "1.hyps"(1) True by simp
    have ev: "(\<lambda>k. even (k - (a + 2))) = (\<lambda>k. even (k - a))"
      by (rule ext) simp
    have "[a..b - 1] = a # [a + 1..b - 1]"
      using True by (simp add: upto_rec1)
    moreover have "filter (\<lambda>k. even (k - a)) [a + 1..b - 1] = filter (\<lambda>k. even (k - a)) [a + 2..b - 1]"
    proof (cases "a + 1 \<le> b - 1")
      case True
      then have "[a + 1..b - 1] = (a + 1) # [a + 2..b - 1]"
        by (simp add: upto_rec1 add.commute)
      then show ?thesis by simp
    next
      case False
      then show ?thesis by simp
    qed
    ultimately show ?thesis
      using True by (simp add: py_range_pos_Cons ih ev)
  next
    case False
    then show ?thesis by (simp add: py_range_pos_Nil)
  qed
qed

lemma mk_id_1024:
  "mk_id 1024 1 = ''1024_1''" "mk_id 1024 3 = ''1024_3''"
  "mk_id 1024 5 = ''1024_5''" "mk_id 1024 7 = ''1024_7''"
  by (simp_all add: mk_id_def str_of_int_def digits.simps digit_char_def)

lemma py_range_1_9: "py_range 1 9 K_STEP = [1, 3, 5, 7]"
  by (simp add: K_STEP_def py_range.simps)

lemma check_1024_1_9:
  "check_range_completion 1024 1 9 C =
     (let m = filter (\<lambda>i. i \<notin> C) [''1024_1'', ''1024_3'', ''1024_5'', ''1024_7''] in (m = [], m))"
  by (simp add: check_range_completion_def missing_loop_filter py_range_1_9 mk_id_1024 Let_def)

text \<open>
  C4: an artifact with \<open>kmin \<ge> kmax\<close> is not complete and has no missing IDs. With
  \<open>kmin < kmax\<close> it is complete exactly when the ID of every \<open>k\<close> in
  \<open>kmin, kmin + 2, ...\<close> below \<open>kmax\<close> is in the Completed set, and the missing list is
  the list of the absent ones in increasing \<open>k\<close>. For \<^verbatim>\<open>uni_1024_1_9\<close>, parsed as
  \<open>(1024, 1, 9)\<close>, it is complete exactly when the four IDs are all completed, and
  taking one of them away reports exactly that one as missing.
\<close>

theorem check_range_completion_classifies:
  "(kmin \<ge> kmax \<longrightarrow> check_range_completion n kmin kmax C = (False, []))
   \<and> (kmin < kmax \<longrightarrow>
        (fst (check_range_completion n kmin kmax C)
           \<longleftrightarrow> (\<forall>k. kmin \<le> k \<and> k < kmax \<and> even (k - kmin) \<longrightarrow> mk_id n k \<in> C))
        \<and> snd (check_range_completion n kmin kmax C)
            = map (mk_id n) (filter (\<lambda>k. even (k - kmin) \<and> mk_id n k \<notin> C) [kmin..kmax - 1]))
   \<and> (fst (check_range_completion 1024 1 9 C)
        \<longleftrightarrow> {''1024_1'', ''1024_3'', ''1024_5'', ''1024_7''} \<subseteq> C)
   \<and> (\<forall>x \<in> {''1024_1'', ''1024_3'', ''1024_5'', ''1024_7''}.
        {''1024_1'', ''1024_3'', ''1024_5'', ''1024_7''} \<subseteq> C \<longrightarrow>
        check_range_completion 1024 1 9 (C - {x}) = (False, [x]))"
proof (intro conjI impI)
  assume "kmax \<le> kmin"
  then show "check_range_completion n kmin kmax C = (False, [])"
    by (simp add: check_range_completion_def)
next
  assume lt: "kmin < kmax"
  have m: "snd (check_range_completion n kmin kmax C)
             = filter (\<lambda>i. i \<notin> C) (map (mk_id n) (py_range kmin kmax 2))"
    using lt by (simp add: check_range_completion_def missing_loop_filter K_STEP_def Let_def)
  have f: "fst (check_range_completion n kmin kmax C)
             \<longleftrightarrow> snd (check_range_completion n kmin kmax C) = []"
    using lt by (simp add: check_range_completion_def Let_def)
  show "fst (check_range_completion n kmin kmax C)
           \<longleftrightarrow> (\<forall>k. kmin \<le> k \<and> k < kmax \<and> even (k - kmin) \<longrightarrow> mk_id n k \<in> C)"
    unfolding f m by (auto simp: filter_empty_conv py_range_two_upto)
  show "snd (check_range_completion n kmin kmax C)
            = map (mk_id n) (filter (\<lambda>k. even (k - kmin) \<and> mk_id n k \<notin> C) [kmin..kmax - 1])"
    unfolding m py_range_two_upto by (simp add: filter_map comp_def conj_commute)
next
  show "fst (check_range_completion 1024 1 9 C)
        \<longleftrightarrow> {''1024_1'', ''1024_3'', ''1024_5'', ''1024_7''} \<subseteq> C"
    by (simp add: check_1024_1_9 Let_def filter_empty_conv)
next
  show "\<forall>x \<in> {''1024_1'', ''1024_3'', ''1024_5'', ''1024_7''}.
        {''1024_1'', ''1024_3'', ''1024_5'', ''1024_7''} \<subseteq> C \<longrightarrow>
        check_range_completion 1024 1 9 (C - {x}) = (False, [x])"
    by (simp add: check_1024_1_9 Let_def)
qed

text \<open>The three cases of C4 at concrete sets, obtained from the theorem.\<close>

theorem check_range_completion_classifies_witness:
  "check_range_completion 1024 9 1 {''1024_1''} = (False, [])
   \<and> fst (check_range_completion 1024 1 9 {''1024_1'', ''1024_3'', ''1024_5'', ''1024_7'', ''1024_9''})
   \<and> snd (check_range_completion 1024 1 9 {''1024_1'', ''1024_7''}) = [''1024_3'', ''1024_5'']
   \<and> check_range_completion 1024 1 9
        ({''1024_1'', ''1024_3'', ''1024_5'', ''1024_7''} - {''1024_5''}) = (False, [''1024_5''])"
proof -
  have a: "(9::int) \<ge> 1" by simp
  have b: "(1::int) < 9" by simp
  note t1 = check_range_completion_classifies [of 1 9 1024 "{''1024_1''}"]
  note t2 = check_range_completion_classifies
    [of 9 1 1024 "{''1024_1'', ''1024_3'', ''1024_5'', ''1024_7'', ''1024_9''}"]
  note t3 = check_range_completion_classifies [of 9 1 1024 "{''1024_1'', ''1024_7''}"]
  note t4 = check_range_completion_classifies
    [of 9 1 1024 "{''1024_1'', ''1024_3'', ''1024_5'', ''1024_7''}"]
  have "check_range_completion 1024 9 1 {''1024_1''} = (False, [])"
    using t1 a by blast
  moreover have "fst (check_range_completion 1024 1 9 {''1024_1'', ''1024_3'', ''1024_5'', ''1024_7'', ''1024_9''})"
  proof -
    from t2 have "fst (check_range_completion 1024 1 9 {''1024_1'', ''1024_3'', ''1024_5'', ''1024_7'', ''1024_9''})
        \<longleftrightarrow> {''1024_1'', ''1024_3'', ''1024_5'', ''1024_7''}
              \<subseteq> {''1024_1'', ''1024_3'', ''1024_5'', ''1024_7'', ''1024_9''}"
      by blast
    then show ?thesis by simp
  qed
  moreover have "snd (check_range_completion 1024 1 9 {''1024_1'', ''1024_7''}) = [''1024_3'', ''1024_5'']"
    using t3 b by (simp add: mk_id_1024 upto_rec1)
  moreover have "check_range_completion 1024 1 9
        ({''1024_1'', ''1024_3'', ''1024_5'', ''1024_7''} - {''1024_5''}) = (False, [''1024_5''])"
    using t4 by blast
  ultimately show ?thesis by blast
qed

section \<open>Enumerating the IDs of a range\<close>


lemma scan_ids_skip_iff:
  "fst (scan_ids n started ks acc) \<longleftrightarrow> (\<exists>k \<in> set ks. mk_id n k \<in> started)"
  by (induction ks arbitrary: acc) (auto simp: Let_def)

lemma scan_ids_clear:
  "\<forall>k \<in> set ks. mk_id n k \<notin> started \<Longrightarrow> scan_ids n started ks acc = (False, acc @ map (mk_id n) ks)"
  by (induction ks arbitrary: acc) (auto simp: Let_def)



section \<open>One iteration of the dispatcher's main loop\<close>

lemma py_range_pos_first: "0 < s \<Longrightarrow> a < b \<Longrightarrow> a \<in> set (py_range a b s)"
  by (simp add: py_range_pos_Cons)

lemma iteration_kmin_bounds:
  assumes "0 < NUM_K_PER_JOB cfg" "kmin \<in> set (py_range 1 (MAX_K cfg) (job_k_range_size cfg))"
  shows "1 \<le> kmin" "kmin < kmax_actual_of cfg kmin"
proof -
  have pos: "0 < job_k_range_size cfg"
    using assms(1) by (simp add: job_k_range_size_def K_STEP_def)
  from assms(2) py_range_pos_mem [OF pos] have b: "1 \<le> kmin \<and> kmin < MAX_K cfg"
    by blast
  then show "1 \<le> kmin" by simp
  from b pos show "kmin < kmax_actual_of cfg kmin"
    by (simp add: kmax_actual_of_def)
qed

lemma iteration_range_ids_nonempty:
  assumes "0 < NUM_K_PER_JOB cfg" "kmin \<in> set (py_range 1 (MAX_K cfg) (job_k_range_size cfg))"
  shows "range_ids (N cfg) kmin (kmax_actual_of cfg kmin) \<noteq> []"
  using iteration_kmin_bounds(2) [OF assms]
  by (simp add: range_ids_def py_range_pos_Cons K_STEP_def)

lemma scan_ids_range_skip:
  "\<exists>i \<in> set (range_ids n kmin kmax). i \<in> started \<Longrightarrow>
     fst (scan_ids n started (py_range kmin kmax K_STEP) [])"
  by (auto simp: scan_ids_skip_iff range_ids_def)

lemma scan_ids_range_clear:
  "\<forall>i \<in> set (range_ids n kmin kmax). i \<notin> started \<Longrightarrow>
     scan_ids n started (py_range kmin kmax K_STEP) [] = (False, range_ids n kmin kmax)"
  using scan_ids_clear [of "py_range kmin kmax K_STEP" n started "[]"]
  by (simp add: range_ids_def)


lemma process_range_skip:
  assumes "submitted_count s < MAX_JOBS cfg"
    and "\<exists>i \<in> set (range_ids (N cfg) kmin (kmax_actual_of cfg kmin)). i \<in> started_ids_set s"
  shows "process_range cfg env kmin s
           = (True, s\<lparr>skipped_ranges_count := skipped_ranges_count s + 1\<rparr>)"
proof -
  obtain ids where sc: "scan_ids (N cfg) (started_ids_set s)
      (py_range kmin (kmax_actual_of cfg kmin) K_STEP) [] = (True, ids)"
    using scan_ids_range_skip [OF assms(2)] by (metis fst_conv surj_pair)
  show ?thesis
    using assms(1) by (simp add: process_range_def sc Let_def)
qed

lemma process_range_clear:
  assumes "submitted_count s < MAX_JOBS cfg"
    and "\<forall>i \<in> set (range_ids (N cfg) kmin (kmax_actual_of cfg kmin)). i \<notin> started_ids_set s"
    and "range_ids (N cfg) kmin (kmax_actual_of cfg kmin) \<noteq> []"
  shows "process_range cfg env kmin s =
     (let kmax_actual = kmax_actual_of cfg kmin;
          ids_in_range = range_ids (N cfg) kmin kmax_actual;
          s1 = mark_started (append_io env kmin) ids_in_range s in
      if config_error env kmin
      then (True, s1\<lparr>error_count := error_count s1 + 1,
                     trace := trace s1 @ [ConfigWrite kmin kmax_actual False,
                                          Stderr (ConfigWriteError kmin kmax_actual)]\<rparr>)
      else submit_job (qsub_io env kmin) kmin kmax_actual ids_in_range
             (s1\<lparr>trace := trace s1 @ [ConfigWrite kmin kmax_actual True]\<rparr>))"
  using assms(1,3) by (simp add: process_range_def scan_ids_range_clear [OF assms(2)] Let_def)

lemma mark_started_fields:
  "started_ids_set (mark_started io ids s) = started_ids_set s \<union> set ids"
  "submitted_count (mark_started io ids s) = submitted_count s"
  "skipped_ranges_count (mark_started io ids s) = skipped_ranges_count s"
  "error_count (mark_started io ids s) = error_count s"
  "started_file (mark_started io ids s) = fst (append_ids_to_file io (started_file s) ids)"
  "trace (mark_started io ids s)
     = trace s @ LedgerAppend ids io # map Stderr (snd (append_ids_to_file io (started_file s) ids))"
  by (simp_all add: mark_started_def split: prod.splits)

lemma iteration_kmin_odd:
  assumes "0 < NUM_K_PER_JOB cfg" "kmin \<in> set (py_range 1 (MAX_K cfg) (job_k_range_size cfg))"
  shows "odd kmin"
proof -
  have pos: "0 < job_k_range_size cfg"
    using assms(1) by (simp add: job_k_range_size_def K_STEP_def)
  from assms(2) py_range_pos_mem [OF pos]
  have "(kmin - 1) mod (NUM_K_PER_JOB cfg * 2) = 0"
    by (simp add: job_k_range_size_def K_STEP_def)
  then have "even (kmin - 1)"
    by (metis dvd_triv_right dvd_trans mod_0_imp_dvd)
  then show ?thesis by simp
qed

lemma py_range_step_mem:
  "k \<in> set (py_range kmin kmax K_STEP) \<longleftrightarrow> kmin \<le> k \<and> k < kmax \<and> even (k - kmin)"
proof -
  have "0 < K_STEP" by (simp add: K_STEP_def)
  from py_range_pos_mem [OF this, of k kmin kmax] show ?thesis
    by (simp add: K_STEP_def even_iff_mod_2_eq_zero)
qed

lemma range_ids_set:
  "set (range_ids n kmin kmax) = {mk_id n k |k. kmin \<le> k \<and> k < kmax \<and> even (k - kmin)}"
proof (rule set_eqI)
  fix x
  have "x \<in> set (range_ids n kmin kmax) \<longleftrightarrow> (\<exists>k \<in> set (py_range kmin kmax K_STEP). x = mk_id n k)"
    unfolding range_ids_def set_map by blast
  also have "\<dots> \<longleftrightarrow> (\<exists>k. x = mk_id n k \<and> kmin \<le> k \<and> k < kmax \<and> even (k - kmin))"
    unfolding py_range_step_mem [symmetric] by blast
  finally show "x \<in> set (range_ids n kmin kmax)
      \<longleftrightarrow> x \<in> {mk_id n k |k. kmin \<le> k \<and> k < kmax \<and> even (k - kmin)}"
    by blast
qed

text \<open>
  C2: for a range of the iteration order that the loop reaches below the cap, with
  \<open>ids\<close> its constituent IDs (the strings for the odd \<open>k\<close> of \<open>[kmin, kmax_actual)\<close>):
  if any of them is in the Started set, the iteration only counts the range as
  skipped (the ledger, the set and the trace are as before); otherwise the iteration
  appends the whole list to the Started ledger, adds it to the set and, once the
  config file is written, hands the job of the whole range to \<^verbatim>\<open>qsub\<close>.
\<close>

theorem planner_skips_started_range:
  assumes "0 < NUM_K_PER_JOB cfg"
    and "kmin \<in> set (py_range 1 (MAX_K cfg) (job_k_range_size cfg))"
    and "submitted_count s < MAX_JOBS cfg"
  shows "set (range_ids (N cfg) kmin (kmax_actual_of cfg kmin))
           = {mk_id (N cfg) k |k. kmin \<le> k \<and> k < kmax_actual_of cfg kmin \<and> odd k}
       \<and> ((\<exists>i \<in> set (range_ids (N cfg) kmin (kmax_actual_of cfg kmin)). i \<in> started_ids_set s)
            \<longrightarrow> process_range cfg env kmin s
                  = (True, s\<lparr>skipped_ranges_count := skipped_ranges_count s + 1\<rparr>))
       \<and> ((\<forall>i \<in> set (range_ids (N cfg) kmin (kmax_actual_of cfg kmin)). i \<notin> started_ids_set s)
            \<longrightarrow> skipped_ranges_count (snd (process_range cfg env kmin s)) = skipped_ranges_count s
              \<and> started_ids_set (snd (process_range cfg env kmin s))
                  = started_ids_set s \<union> set (range_ids (N cfg) kmin (kmax_actual_of cfg kmin))
              \<and> (\<exists>rest. trace (snd (process_range cfg env kmin s))
                    = trace s @ LedgerAppend (range_ids (N cfg) kmin (kmax_actual_of cfg kmin))
                                  (append_io env kmin) # rest)
              \<and> (\<not> config_error env kmin \<longrightarrow>
                    QsubCall kmin (kmax_actual_of cfg kmin)
                       (range_ids (N cfg) kmin (kmax_actual_of cfg kmin)) (qsub_io env kmin)
                      \<in> set (trace (snd (process_range cfg env kmin s)))))"
proof (intro conjI impI)
  have "odd kmin" using assms(1,2) by (rule iteration_kmin_odd)
  then have "\<And>k. even (k - kmin) \<longleftrightarrow> odd k" by simp
  then show "set (range_ids (N cfg) kmin (kmax_actual_of cfg kmin))
           = {mk_id (N cfg) k |k. kmin \<le> k \<and> k < kmax_actual_of cfg kmin \<and> odd k}"
    by (simp add: range_ids_set)
next
  assume "\<exists>i \<in> set (range_ids (N cfg) kmin (kmax_actual_of cfg kmin)). i \<in> started_ids_set s"
  with assms(3) show "process_range cfg env kmin s
                  = (True, s\<lparr>skipped_ranges_count := skipped_ranges_count s + 1\<rparr>)"
    by (rule process_range_skip)
next
  assume clear: "\<forall>i \<in> set (range_ids (N cfg) kmin (kmax_actual_of cfg kmin)). i \<notin> started_ids_set s"
  note ne = iteration_range_ids_nonempty [OF assms(1,2)]
  note pr = process_range_clear [OF assms(3) clear ne, of env]
  show "skipped_ranges_count (snd (process_range cfg env kmin s)) = skipped_ranges_count s"
    unfolding pr
    by (simp add: Let_def submit_job_def mark_started_fields split: qsub_outcome.split)
  show "started_ids_set (snd (process_range cfg env kmin s))
          = started_ids_set s \<union> set (range_ids (N cfg) kmin (kmax_actual_of cfg kmin))"
    unfolding pr
    by (simp add: Let_def submit_job_def mark_started_fields split: qsub_outcome.split)
  show "\<exists>rest. trace (snd (process_range cfg env kmin s))
                    = trace s @ LedgerAppend (range_ids (N cfg) kmin (kmax_actual_of cfg kmin))
                                  (append_io env kmin) # rest"
    unfolding pr
    by (simp add: Let_def submit_job_def mark_started_fields split: qsub_outcome.split)
  assume "\<not> config_error env kmin"
  then show "QsubCall kmin (kmax_actual_of cfg kmin)
                       (range_ids (N cfg) kmin (kmax_actual_of cfg kmin)) (qsub_io env kmin)
                      \<in> set (trace (snd (process_range cfg env kmin s)))"
    unfolding pr
    by (simp add: Let_def submit_job_def mark_started_fields split: qsub_outcome.split)
qed

section \<open>The example configuration\<close>

lemma small_config_values:
  "N small_config = 16" "MAX_K small_config = 8" "job_k_range_size small_config = 4"
  "NUM_K_PER_JOB small_config = 2" "MAX_JOBS small_config = 128"
  "kmax_actual_of small_config 1 = 5" "kmax_actual_of small_config 5 = 8"
  by (simp_all add: small_config_def N_def MAX_K_def job_k_range_size_def K_STEP_def
        kmax_actual_of_def)

lemma small_config_iteration:
  "py_range 1 (MAX_K small_config) (job_k_range_size small_config) = [1, 5]"
  by (simp add: small_config_values py_range.simps)

lemma small_config_ids:
  "range_ids 16 1 5 = [''16_1'', ''16_3'']" "range_ids 16 5 8 = [''16_5'', ''16_7'']"
  by (simp_all add: range_ids_def K_STEP_def py_range.simps mk_id_def str_of_int_def
        digits.simps digit_char_def)

text \<open>
  C2 at the second range of the example: skipped when \<^verbatim>\<open>16_7\<close> is started, planned as
  a whole when only \<^verbatim>\<open>16_1\<close> is.
\<close>

theorem planner_skips_started_range_witness:
  "process_range small_config calm_env 5 (loaded (Some ''16_7\<newline>'') {''16_7''})
     = (True, (loaded (Some ''16_7\<newline>'') {''16_7''})\<lparr>skipped_ranges_count := 1\<rparr>)
   \<and> started_ids_set (snd (process_range small_config calm_env 5 (loaded (Some ''16_1\<newline>'') {''16_1''})))
       = {''16_1'', ''16_5'', ''16_7''}
   \<and> QsubCall 5 8 [''16_5'', ''16_7''] (QsubOk ''1.pbs'')
       \<in> set (trace (snd (process_range small_config calm_env 5 (loaded (Some ''16_1\<newline>'') {''16_1''}))))"
proof -
  have a: "0 < NUM_K_PER_JOB small_config"
    by (simp add: small_config_values)
  have b: "5 \<in> set (py_range 1 (MAX_K small_config) (job_k_range_size small_config))"
    by (simp add: small_config_iteration)
  have c: "submitted_count (loaded f st) < MAX_JOBS small_config" for f st
    by (simp add: loaded_def small_config_values)
  note t = planner_skips_started_range [OF a b c, of _ _ calm_env]
  have hit: "\<exists>i \<in> set (range_ids (N small_config) 5 (kmax_actual_of small_config 5)).
      i \<in> started_ids_set (loaded (Some ''16_7\<newline>'') {''16_7''})"
    by (simp add: small_config_values small_config_ids loaded_def)
  have clear: "\<forall>i \<in> set (range_ids (N small_config) 5 (kmax_actual_of small_config 5)).
      i \<notin> started_ids_set (loaded (Some ''16_1\<newline>'') {''16_1''})"
    by (simp add: small_config_values small_config_ids loaded_def)
  have "process_range small_config calm_env 5 (loaded (Some ''16_7\<newline>'') {''16_7''})
     = (True, (loaded (Some ''16_7\<newline>'') {''16_7''})\<lparr>skipped_ranges_count := 1\<rparr>)"
    using t [THEN conjunct2, THEN conjunct1, THEN mp, OF hit]
    by (simp add: loaded_def)
  moreover have "started_ids_set (snd (process_range small_config calm_env 5 (loaded (Some ''16_1\<newline>'') {''16_1''})))
       = {''16_1'', ''16_5'', ''16_7''}
     \<and> QsubCall 5 8 [''16_5'', ''16_7''] (QsubOk ''1.pbs'')
       \<in> set (trace (snd (process_range small_config calm_env 5 (loaded (Some ''16_1\<newline>'') {''16_1''}))))"
    using t [THEN conjunct2, THEN conjunct2, THEN mp, OF clear]
    by (simp add: small_config_values small_config_ids loaded_def calm_env_def insert_commute)
  ultimately show ?thesis by blast
qed

section \<open>Failures inside one iteration\<close>

lemma main_loop_step:
  "main_loop cfg env (kmin # rest) s =
     (if fst (process_range cfg env kmin s)
      then main_loop cfg env rest (snd (process_range cfg env kmin s))
      else snd (process_range cfg env kmin s))"
  by (simp split: prod.split bool.split)

text \<open>
  C9: for a range of the iteration order that is clear to be submitted. An
  \<^verbatim>\<open>IOError\<close> while writing its config file counts one error, reaches no \<^verbatim>\<open>qsub\<close>
  call, and the loop goes on with the next range. \<^verbatim>\<open>FileNotFoundError\<close> from \<^verbatim>\<open>qsub\<close>
  counts one error, is printed to stderr, and ends the loop: the final state is the
  state after this iteration whatever ranges remain. \<^verbatim>\<open>CalledProcessError\<close> counts one
  error, is printed to stderr with the return code, counts no submission, and the loop
  goes on with the next range.
\<close>

theorem dispatcher_failure_granularity:
  assumes "0 < NUM_K_PER_JOB cfg"
    and "kmin \<in> set (py_range 1 (MAX_K cfg) (job_k_range_size cfg))"
    and "submitted_count s < MAX_JOBS cfg"
    and "\<forall>i \<in> set (range_ids (N cfg) kmin (kmax_actual_of cfg kmin)). i \<notin> started_ids_set s"
  shows "(config_error env kmin \<longrightarrow>
            main_loop cfg env (kmin # rest) s
              = main_loop cfg env rest (snd (process_range cfg env kmin s))
          \<and> error_count (snd (process_range cfg env kmin s)) = error_count s + 1
          \<and> submitted_count (snd (process_range cfg env kmin s)) = submitted_count s
          \<and> (\<forall>a b ids out. QsubCall a b ids out \<in> set (trace (snd (process_range cfg env kmin s)))
                \<longrightarrow> QsubCall a b ids out \<in> set (trace s)))
       \<and> (\<not> config_error env kmin \<and> qsub_io env kmin = QsubNotFound \<longrightarrow>
            main_loop cfg env (kmin # rest) s = snd (process_range cfg env kmin s)
          \<and> error_count (snd (process_range cfg env kmin s)) = error_count s + 1
          \<and> submitted_count (snd (process_range cfg env kmin s)) = submitted_count s
          \<and> Stderr QsubNotFoundError \<in> set (trace (snd (process_range cfg env kmin s))))
       \<and> (\<not> config_error env kmin \<and> qsub_io env kmin = QsubRejected returncode \<longrightarrow>
            main_loop cfg env (kmin # rest) s
              = main_loop cfg env rest (snd (process_range cfg env kmin s))
          \<and> error_count (snd (process_range cfg env kmin s)) = error_count s + 1
          \<and> submitted_count (snd (process_range cfg env kmin s)) = submitted_count s
          \<and> Stderr (QsubFailedError kmin (kmax_actual_of cfg kmin) returncode)
               \<in> set (trace (snd (process_range cfg env kmin s))))"
proof -
  note ne = iteration_range_ids_nonempty [OF assms(1,2)]
  note pr = process_range_clear [OF assms(3,4) ne, of env]
  have a: "main_loop cfg env (kmin # rest) s
              = main_loop cfg env rest (snd (process_range cfg env kmin s))
          \<and> error_count (snd (process_range cfg env kmin s)) = error_count s + 1
          \<and> submitted_count (snd (process_range cfg env kmin s)) = submitted_count s
          \<and> (\<forall>a b ids out. QsubCall a b ids out \<in> set (trace (snd (process_range cfg env kmin s)))
                \<longrightarrow> QsubCall a b ids out \<in> set (trace s))"
    if "config_error env kmin"
    unfolding main_loop_step unfolding pr using that
    by (auto simp: Let_def mark_started_fields)
  have b: "main_loop cfg env (kmin # rest) s = snd (process_range cfg env kmin s)
          \<and> error_count (snd (process_range cfg env kmin s)) = error_count s + 1
          \<and> submitted_count (snd (process_range cfg env kmin s)) = submitted_count s
          \<and> Stderr QsubNotFoundError \<in> set (trace (snd (process_range cfg env kmin s)))"
    if "\<not> config_error env kmin" "qsub_io env kmin = QsubNotFound"
    unfolding main_loop_step unfolding pr using that
    by (simp add: Let_def submit_job_def mark_started_fields)
  have c: "main_loop cfg env (kmin # rest) s
              = main_loop cfg env rest (snd (process_range cfg env kmin s))
          \<and> error_count (snd (process_range cfg env kmin s)) = error_count s + 1
          \<and> submitted_count (snd (process_range cfg env kmin s)) = submitted_count s
          \<and> Stderr (QsubFailedError kmin (kmax_actual_of cfg kmin) returncode)
               \<in> set (trace (snd (process_range cfg env kmin s)))"
    if "\<not> config_error env kmin" "qsub_io env kmin = QsubRejected returncode"
    unfolding main_loop_step unfolding pr using that
    by (simp add: Let_def submit_job_def mark_started_fields)
  from a b c show ?thesis by blast
qed

text \<open>
  C10: when opening or writing the Started ledger raises, \<^verbatim>\<open>append_ids_to_file\<close> prints
  to stderr and returns, and after a failed \<^verbatim>\<open>open\<close> the file is as before. The
  iteration of a clear range whose append failed goes on all the same: no error is
  counted, the config file is written and the job is submitted, so the job of a range
  runs whose IDs the ledger file does not hold.
\<close>

theorem append_failure_is_silent:
  assumes "0 < NUM_K_PER_JOB cfg"
    and "kmin \<in> set (py_range 1 (MAX_K cfg) (job_k_range_size cfg))"
    and "submitted_count s < MAX_JOBS cfg"
    and "\<forall>i \<in> set (range_ids (N cfg) kmin (kmax_actual_of cfg kmin)). i \<notin> started_ids_set s"
    and "append_io env kmin \<noteq> IoOk"
    and "\<not> config_error env kmin"
    and "qsub_io env kmin = QsubOk job_id"
  shows "snd (append_ids_to_file (append_io env kmin) file ids_to_add) = [TrackingWriteError]
       \<and> fst (append_ids_to_file OpenError file ids_to_add) = file
       \<and> fst (process_range cfg env kmin s)
       \<and> Stderr TrackingWriteError \<in> set (trace (snd (process_range cfg env kmin s)))
       \<and> error_count (snd (process_range cfg env kmin s)) = error_count s
       \<and> ConfigWrite kmin (kmax_actual_of cfg kmin) True
            \<in> set (trace (snd (process_range cfg env kmin s)))
       \<and> QsubCall kmin (kmax_actual_of cfg kmin)
            (range_ids (N cfg) kmin (kmax_actual_of cfg kmin)) (QsubOk job_id)
            \<in> set (trace (snd (process_range cfg env kmin s)))
       \<and> submitted_count (snd (process_range cfg env kmin s)) = submitted_count s + 1
       \<and> (append_io env kmin = OpenError \<longrightarrow>
            started_file (snd (process_range cfg env kmin s)) = started_file s)"
proof -
  note ne = iteration_range_ids_nonempty [OF assms(1,2)]
  note pr = process_range_clear [OF assms(3,4) ne, of env]
  have msg: "snd (append_ids_to_file (append_io env kmin) f ids) = [TrackingWriteError]" for f ids
    using assms(5) by (cases "append_io env kmin") (simp_all add: append_ids_to_file_def Let_def)
  have opn: "fst (append_ids_to_file OpenError file ids_to_add) = file"
    by (simp add: append_ids_to_file_def)
  have rest: "fst (process_range cfg env kmin s)
       \<and> Stderr TrackingWriteError \<in> set (trace (snd (process_range cfg env kmin s)))
       \<and> error_count (snd (process_range cfg env kmin s)) = error_count s
       \<and> ConfigWrite kmin (kmax_actual_of cfg kmin) True
            \<in> set (trace (snd (process_range cfg env kmin s)))
       \<and> QsubCall kmin (kmax_actual_of cfg kmin)
            (range_ids (N cfg) kmin (kmax_actual_of cfg kmin)) (QsubOk job_id)
            \<in> set (trace (snd (process_range cfg env kmin s)))
       \<and> submitted_count (snd (process_range cfg env kmin s)) = submitted_count s + 1"
    unfolding pr using assms(6,7)
    by (simp add: Let_def submit_job_def mark_started_fields msg)
  have unch: "started_file (snd (process_range cfg env kmin s)) = started_file s"
    if "append_io env kmin = OpenError"
    unfolding pr using assms(6,7) that
    by (simp add: Let_def submit_job_def mark_started_fields append_ids_to_file_def)
  from msg opn rest unch show ?thesis by blast
qed

text \<open>C9 at the first range of the example, under the three failures.\<close>

theorem dispatcher_failure_granularity_witness:
  "error_count (snd (process_range small_config (calm_env\<lparr>config_error := (\<lambda>kmin. kmin = 1)\<rparr>) 1
        (loaded (Some []) {}))) = 1
   \<and> main_loop small_config (calm_env\<lparr>config_error := (\<lambda>kmin. kmin = 1)\<rparr>) [1, 5] (loaded (Some []) {})
       = main_loop small_config (calm_env\<lparr>config_error := (\<lambda>kmin. kmin = 1)\<rparr>) [5]
           (snd (process_range small_config (calm_env\<lparr>config_error := (\<lambda>kmin. kmin = 1)\<rparr>) 1
              (loaded (Some []) {})))
   \<and> main_loop small_config (calm_env\<lparr>qsub_io := (\<lambda>kmin. QsubNotFound)\<rparr>) [1, 5] (loaded (Some []) {})
       = snd (process_range small_config (calm_env\<lparr>qsub_io := (\<lambda>kmin. QsubNotFound)\<rparr>) 1
           (loaded (Some []) {}))
   \<and> Stderr (QsubFailedError 1 5 3)
       \<in> set (trace (snd (process_range small_config (calm_env\<lparr>qsub_io := (\<lambda>kmin. QsubRejected 3)\<rparr>) 1
           (loaded (Some []) {}))))
   \<and> main_loop small_config (calm_env\<lparr>qsub_io := (\<lambda>kmin. QsubRejected 3)\<rparr>) [1, 5] (loaded (Some []) {})
       = main_loop small_config (calm_env\<lparr>qsub_io := (\<lambda>kmin. QsubRejected 3)\<rparr>) [5]
           (snd (process_range small_config (calm_env\<lparr>qsub_io := (\<lambda>kmin. QsubRejected 3)\<rparr>) 1
              (loaded (Some []) {})))"
proof -
  have a: "0 < NUM_K_PER_JOB small_config"
    by (simp add: small_config_values)
  have b: "1 \<in> set (py_range 1 (MAX_K small_config) (job_k_range_size small_config))"
    by (simp add: small_config_iteration)
  have c: "submitted_count (loaded (Some []) {}) < MAX_JOBS small_config"
    by (simp add: loaded_def small_config_values)
  have d: "\<forall>i \<in> set (range_ids (N small_config) 1 (kmax_actual_of small_config 1)).
      i \<notin> started_ids_set (loaded (Some []) {})"
    by (simp add: loaded_def)
  note t = dispatcher_failure_granularity [OF a b c d]
  have e1: "config_error (calm_env\<lparr>config_error := (\<lambda>kmin. kmin = 1)\<rparr>) 1"
    by simp
  have e2: "\<not> config_error (calm_env\<lparr>qsub_io := (\<lambda>kmin. QsubNotFound)\<rparr>) 1
      \<and> qsub_io (calm_env\<lparr>qsub_io := (\<lambda>kmin. QsubNotFound)\<rparr>) 1 = QsubNotFound"
    by (simp add: calm_env_def)
  have e3: "\<not> config_error (calm_env\<lparr>qsub_io := (\<lambda>kmin. QsubRejected 3)\<rparr>) 1
      \<and> qsub_io (calm_env\<lparr>qsub_io := (\<lambda>kmin. QsubRejected 3)\<rparr>) 1 = QsubRejected 3"
    by (simp add: calm_env_def)
  note r1 = t [THEN conjunct1, THEN mp, OF e1, of "[5]"]
  note r2 = t [THEN conjunct2, THEN conjunct1, THEN mp, OF e2, of "[5]"]
  note r3 = t [THEN conjunct2, THEN conjunct2, THEN mp, OF e3, of "[5]"]
  from r1 r2 r3 show ?thesis
    by (simp add: small_config_values loaded_def)
qed

text \<open>C10 at the second range of the example, with an \<^verbatim>\<open>open\<close> that fails.\<close>

theorem append_failure_is_silent_witness:
  "append_ids_to_file OpenError (Some ''16_1\<newline>'') [''16_5'', ''16_7'']
     = (Some ''16_1\<newline>'', [TrackingWriteError])
   \<and> QsubCall 5 8 [''16_5'', ''16_7''] (QsubOk ''1.pbs'')
       \<in> set (trace (snd (process_range small_config (calm_env\<lparr>append_io := (\<lambda>kmin. OpenError)\<rparr>) 5
           (loaded (Some ''16_1\<newline>'') {''16_1''}))))
   \<and> started_file (snd (process_range small_config (calm_env\<lparr>append_io := (\<lambda>kmin. OpenError)\<rparr>) 5
           (loaded (Some ''16_1\<newline>'') {''16_1''}))) = Some ''16_1\<newline>''
   \<and> submitted_count (snd (process_range small_config (calm_env\<lparr>append_io := (\<lambda>kmin. OpenError)\<rparr>) 5
           (loaded (Some ''16_1\<newline>'') {''16_1''}))) = 1"
proof -
  have a: "0 < NUM_K_PER_JOB small_config"
    by (simp add: small_config_values)
  have b: "5 \<in> set (py_range 1 (MAX_K small_config) (job_k_range_size small_config))"
    by (simp add: small_config_iteration)
  have c: "submitted_count (loaded (Some ''16_1\<newline>'') {''16_1''}) < MAX_JOBS small_config"
    by (simp add: loaded_def small_config_values)
  have d: "\<forall>i \<in> set (range_ids (N small_config) 5 (kmax_actual_of small_config 5)).
      i \<notin> started_ids_set (loaded (Some ''16_1\<newline>'') {''16_1''})"
    by (simp add: loaded_def small_config_values small_config_ids)
  have e: "append_io (calm_env\<lparr>append_io := (\<lambda>kmin. OpenError)\<rparr>) 5 \<noteq> IoOk"
    by simp
  have f: "\<not> config_error (calm_env\<lparr>append_io := (\<lambda>kmin. OpenError)\<rparr>) 5"
    by (simp add: calm_env_def)
  have g: "qsub_io (calm_env\<lparr>append_io := (\<lambda>kmin. OpenError)\<rparr>) 5 = QsubOk ''1.pbs''"
    by (simp add: calm_env_def)
  from append_failure_is_silent [OF a b c d e f g, of "Some ''16_1\<newline>''" "[''16_5'', ''16_7'']"]
  show ?thesis
    by (simp add: small_config_values small_config_ids loaded_def prod_eq_iff)
qed

section \<open>Appending to a ledger file and loading it\<close>

lemma utf8_decode_step:
  "decode_first (b # bs) = Some (point, rest) \<Longrightarrow>
     utf8_decode (b # bs) = map_option ((#) point) (utf8_decode rest)"
  by (subst utf8_decode.simps(2)) (simp only: option.case prod.case map_option_case)

lemma utf8_decode_ascii_Cons:
  "b < 0x80 \<Longrightarrow> utf8_decode (b # bs) = map_option ((#) b) (utf8_decode bs)"
  by (rule utf8_decode_step) (simp add: decode_first_def)


















text \<open>The bytes of the lines that \<^verbatim>\<open>append_ids_to_file\<close> writes, as code points.\<close>

lemma id_lines_bytes:
  "map of_char (id_lines ids) = concat (map (\<lambda>i. map of_char i @ [0x0A::nat]) ids)"
  by (induction ids) (simp_all add: id_lines_def)












lemma load_Some:
  "load_tracked_ids False (Some content) =
     (case utf8_decode (map of_char content) of
        None \<Rightarrow> Inl Crash
      | Some text \<Rightarrow>
          Inr (set (map (\<lambda>line. utf8_encode (py_strip line))
                 (filter (\<lambda>line. py_strip line \<noteq> []) (file_lines (universal_newlines text))))))"
  by (simp add: load_tracked_ids_def)







lemmas load_eval = load_Some utf8_decode_ascii_Cons utf8_decode.simps(1) utf8_encode_def
  utf8_encode_point_def py_strip_def is_space_def char_of_def bit_iff_odd





text \<open>
  Two ledgers on which the decoding matters: a line that starts with a no-break space (\<^verbatim>\<open>U+00A0\<close>, the bytes
  \<^verbatim>\<open>C2 A0\<close>), which \<^verbatim>\<open>strip\<close> removes, and a byte that is no UTF-8.
\<close>

lemma load_strips_no_break_space:
  "load_tracked_ids False (Some [CHR 0xC2, CHR 0xA0, CHR ''1'', CHR ''6'', CHR 0x0A]) = Inr {''16''}"
  by (simp add: load_eval utf8_decode.simps(2) decode_first_def continuation_def)

lemma load_invalid_bytes:
  "load_tracked_ids False (Some [CHR 0xFF, CHR 0x0A]) = Inl Crash"
  by (simp add: load_eval utf8_decode.simps(2) decode_first_def continuation_def)


text \<open>
  C8 as stated fails: a write of the line of \<^verbatim>\<open>16_1\<close> that fails
  after four characters leaves a ledger without a final line break; the ID \<^verbatim>\<open>16_3\<close>
  that is appended next, with no error, joins that line, and a fresh load yields the
  one string \<^verbatim>\<open>16_116_3\<close>.
\<close>

theorem appended_id_joins_partial_line:
  "fst (append_ids_to_file (WriteError 4) (Some []) [''16_1'']) = Some ''16_1''
   \<and> load_tracked_ids False (fst (append_ids_to_file IoOk (Some ''16_1'') [''16_3'']))
       = Inr {''16_116_3''}
   \<and> ''16_3'' \<notin> {''16_116_3''}"
  by (simp add: append_ids_to_file_def id_lines_def load_eval)


section \<open>The order of ledger append and submission\<close>




lemma calls_ordered_Stderr [simp]: "calls_ordered env seen (map Stderr msgs) = True"
  by (induction msgs) simp_all

lemma appended_lists_Stderr [simp]: "appended_lists (map Stderr msgs) = []"
  by (induction msgs) simp_all

























lemma small_ids_config:
  "range_ids (N small_config) 1 (kmax_actual_of small_config 1) = [''16_1'', ''16_3'']"
  "range_ids (N small_config) 5 (kmax_actual_of small_config 5) = [''16_5'', ''16_7'']"
  by (simp_all add: small_config_values small_config_ids)

lemma range_1_8_4: "py_range 1 8 4 = [1, 5]"
  by (simp add: py_range.simps)



lemma calm_env_values:
  "prep_ok calm_env" "\<not> load_error calm_env"
  "append_io calm_env k = IoOk" "\<not> config_error calm_env k"
  "qsub_io calm_env k = QsubOk ''1.pbs''"
  by (simp_all add: calm_env_def)






section \<open>The archiver after a failed archive operation\<close>

lemma tar_add_all_ok_iff:
  "fst (tar_add_all fails fs entries) \<longleftrightarrow> (\<forall>f \<in> set fs. \<not> fails f)"
  by (induction fs arbitrary: entries) simp_all

lemma archive_files_failed:
  assumes "tar_open_fails env \<or> (\<exists>f \<in> set files_to_archive. tar_add_fails env f)
             \<or> tar_close_fails env"
  shows "snd (archive_files env arch files_to_archive) = []"
proof (cases "tar_open_fails env")
  case True
  then show ?thesis by (simp add: archive_files_def)
next
  case False
  with assms have "\<not> (fst (tar_add_all (tar_add_fails env) files_to_archive
      (case arch of None \<Rightarrow> [] | Some es \<Rightarrow> es)) \<and> \<not> tar_close_fails env)"
    by (auto simp: tar_add_all_ok_iff)
  then show ?thesis
    using False by (auto simp: archive_files_def Let_def case_prod_beta)
qed

lemma remove_files_present:
  "fst (remove_files fails fs (present, removed_count, failed_count))
     = filter (\<lambda>f. f \<notin> set fs \<or> fails f) present"
proof (induction fs arbitrary: present removed_count failed_count)
  case Nil
  then show ?case by simp
next
  case (Cons file_path rest)
  show ?case
  proof (cases "file_path \<in> set present")
    case False
    then have "filter (\<lambda>f. f \<notin> set (file_path # rest) \<or> fails f) present
        = filter (\<lambda>f. f \<notin> set rest \<or> fails f) present"
      by (intro filter_cong) auto
    with False Cons.IH show ?thesis by simp
  next
    case True
    show ?thesis
    proof (cases "fails file_path")
      case f: True
      then have "filter (\<lambda>f. f \<notin> set (file_path # rest) \<or> fails f) present
          = filter (\<lambda>f. f \<notin> set rest \<or> fails f) present"
        by (intro filter_cong) auto
      with True f Cons.IH show ?thesis by simp
    next
      case f: False
      have "filter (\<lambda>f. f \<notin> set rest \<or> fails f) (filter (\<lambda>f. f \<noteq> file_path) present)
          = filter (\<lambda>f. f \<notin> set (file_path # rest) \<or> fails f) present"
        unfolding filter_filter using f by (intro filter_cong) auto
      with True f Cons.IH show ?thesis by simp
    qed
  qed
qed

lemma glob_match_star:
  "glob_match (CHR ''*'' # ps) name
     \<longleftrightarrow> glob_match ps name \<or> (\<exists>c cs. name = c # cs \<and> glob_match (CHR ''*'' # ps) cs)"
  by (cases name) (simp_all add: glob_match.simps)

lemma glob_match_char:
  "p \<noteq> CHR ''*'' \<Longrightarrow> glob_match (p # ps) name \<longleftrightarrow> (\<exists>cs. name = p # cs \<and> glob_match ps cs)"
  by (cases name) (auto simp: glob_match.simps)

lemma glob_match_last:
  "glob_match pat name \<Longrightarrow> pat \<noteq> [] \<Longrightarrow> last pat \<noteq> CHR ''*'' \<Longrightarrow>
     name \<noteq> [] \<and> last name = last pat"
proof (induction pat name rule: glob_match.induct)
  case (1 name)
  then show ?case by simp
next
  case (2 p ps name)
  show ?case
  proof (cases "p = CHR ''*''")
    case True
    with "2.prems"(3) have ne: "ps \<noteq> []" by auto
    from "2.prems"(1) True
    consider "glob_match ps name" | c cs where "name = c # cs" "glob_match (p # ps) cs"
      using glob_match_star [of ps name] by auto
    then show ?thesis
    proof cases
      case 1
      from "2.IH"(1) [OF True 1 ne] "2.prems"(3) ne show ?thesis by simp
    next
      case 2
      from "2.IH"(2) [OF True 2(1) 2(2) "2.prems"(2,3)] 2(1) show ?thesis by simp
    qed
  next
    case False
    from "2.prems"(1) False obtain cs where n: "name = p # cs" "glob_match ps cs"
      using glob_match_char [of p ps name] by auto
    show ?thesis
    proof (cases "ps = []")
      case True
      with n have "cs = []" by (simp add: glob_match.simps)
      with n True show ?thesis by simp
    next
      case ne: False
      from "2.IH"(3) [OF False n(1) n(2) ne] "2.prems"(3) ne n(1) show ?thesis by simp
    qed
  qed
qed

lemma range_file_not_title:
  assumes "glob_match RANGE_PATTERN f"
  shows "\<not> glob_match TITLE_PATTERN f"
proof
  assume "glob_match TITLE_PATTERN f"
  from glob_match_last [OF this] have "last f = CHR ''e''"
    by (simp add: TITLE_PATTERN_def)
  moreover from glob_match_last [OF assms] have "last f = CHR ''t''"
    by (simp add: RANGE_PATTERN_def)
  ultimately show False by simp
qed

lemma archiver_failed_listing:
  assumes "tar_open_fails env \<or> (\<exists>f \<in> set files_to_archive. tar_add_fails env f)
             \<or> tar_close_fails env"
  shows "dir_files (archiver env d files_to_archive)
           = filter (\<lambda>f. \<not> glob_match TITLE_PATTERN f \<or> unlink_fails env f) (dir_files d)"
proof -
  have none: "snd (if files_to_archive \<noteq> []
                   then archive_files env (archive d) files_to_archive
                   else (archive d, [])) = []"
    using archive_files_failed [OF assms] by simp
  obtain arch' where a: "(if files_to_archive \<noteq> []
                   then archive_files env (archive d) files_to_archive
                   else (archive d, [])) = (arch', [])"
    using none by (metis prod.collapse)
  obtain p r f where t: "remove_files (unlink_fails env)
        (filter (glob_match TITLE_PATTERN) (dir_files d)) (dir_files d, 0, 0) = (p, r, f)"
    by (metis prod_cases3)
  have "p = filter (\<lambda>f. f \<notin> set (filter (glob_match TITLE_PATTERN) (dir_files d))
                          \<or> unlink_fails env f) (dir_files d)"
    using remove_files_present [of "unlink_fails env" _ "dir_files d" 0 0] t
    by (metis fst_conv)
  also have "\<dots> = filter (\<lambda>f. \<not> glob_match TITLE_PATTERN f \<or> unlink_fails env f) (dir_files d)"
    by (intro filter_cong) auto
  finally show ?thesis
    unfolding archiver_def a by (simp add: t)
qed

text \<open>
  C1: when opening the archive, adding one file of the batch or closing the archive
  raises, the run unlinks no range file: the listing of the files that match
  \<^verbatim>\<open>uni_*_*_*.txt\<close> is as before, and so every file of the batch (which the script
  takes from that pattern) that was on disk still is. The later \<^verbatim>\<open>*.title\<close> cleanup
  removes title files only.
\<close>

theorem archive_failure_removes_nothing:
  assumes "tar_open_fails env \<or> (\<exists>f \<in> set files_to_archive. tar_add_fails env f)
             \<or> tar_close_fails env"
    and "\<forall>f \<in> set files_to_archive. glob_match RANGE_PATTERN f"
  shows "filter (glob_match RANGE_PATTERN) (dir_files (archiver env d files_to_archive))
           = filter (glob_match RANGE_PATTERN) (dir_files d)
       \<and> (\<forall>f \<in> set files_to_archive.
             f \<in> set (dir_files (archiver env d files_to_archive)) \<longleftrightarrow> f \<in> set (dir_files d))
       \<and> set (dir_files (archiver env d files_to_archive)) \<subseteq> set (dir_files d)"
proof -
  note l = archiver_failed_listing [OF assms(1), of d]
  have "filter (glob_match RANGE_PATTERN) (dir_files (archiver env d files_to_archive))
           = filter (glob_match RANGE_PATTERN) (dir_files d)"
    unfolding l filter_filter
    by (intro filter_cong) (auto dest: range_file_not_title)
  moreover have "\<forall>f \<in> set files_to_archive.
             f \<in> set (dir_files (archiver env d files_to_archive)) \<longleftrightarrow> f \<in> set (dir_files d)"
    unfolding l using assms(2) by (auto dest: range_file_not_title)
  moreover have "set (dir_files (archiver env d files_to_archive)) \<subseteq> set (dir_files d)"
    unfolding l by auto
  ultimately show ?thesis by blast
qed

lemma example_batch_matches: "\<forall>f \<in> set example_batch. glob_match RANGE_PATTERN f"
  by (simp add: example_batch_def RANGE_PATTERN_def glob_match.simps)

lemma example_title_matches:
  "glob_match TITLE_PATTERN ''uni_16_1_5.title''"
  "\<forall>f \<in> set example_batch. \<not> glob_match TITLE_PATTERN f"
  by (simp_all add: example_batch_def TITLE_PATTERN_def glob_match.simps)

text \<open>
  C1 at the batch of three whose second file cannot be added: the three range files
  stay, the archive holds the first one, the title file is removed.
\<close>

theorem archive_failure_removes_nothing_witness:
  "archiver second_add_fails example_dir example_batch
     = \<lparr>dir_files = [''uni_16_1_5.txt'', ''uni_16_5_8.txt'', ''uni_32_1_9.txt''],
        archive = Some [''uni_16_1_5.txt'']\<rparr>
   \<and> filter (glob_match RANGE_PATTERN)
        (dir_files (archiver second_add_fails example_dir example_batch))
       = [''uni_16_1_5.txt'', ''uni_16_5_8.txt'', ''uni_32_1_9.txt'']"
proof -
  have fails: "tar_open_fails second_add_fails
      \<or> (\<exists>f \<in> set example_batch. tar_add_fails second_add_fails f)
      \<or> tar_close_fails second_add_fails"
    by (simp add: second_add_fails_def example_batch_def)
  have run: "archiver second_add_fails example_dir example_batch
     = \<lparr>dir_files = [''uni_16_1_5.txt'', ''uni_16_5_8.txt'', ''uni_32_1_9.txt''],
        archive = Some [''uni_16_1_5.txt'']\<rparr>"
    using example_title_matches
    by (simp add: archiver_def archive_files_def second_add_fails_def example_dir_def
          example_batch_def Let_def)
  have before: "filter (glob_match RANGE_PATTERN) (dir_files example_dir)
      = [''uni_16_1_5.txt'', ''uni_16_5_8.txt'', ''uni_32_1_9.txt'']"
    using example_batch_matches range_file_not_title [of "''uni_16_1_5.title''"]
      example_title_matches(1)
    by (auto simp: example_dir_def example_batch_def)
  from archive_failure_removes_nothing [OF fails example_batch_matches, of example_dir]
  have "filter (glob_match RANGE_PATTERN)
        (dir_files (archiver second_add_fails example_dir example_batch))
       = filter (glob_match RANGE_PATTERN) (dir_files example_dir)"
    by (rule conjunct1)
  with run before show ?thesis by simp
qed

section \<open>A second run on the ledger of a first run\<close>












lemma narrow_config_values:
  "N narrow_config = 8" "MAX_K narrow_config = 4" "job_k_range_size narrow_config = 2"
  "NUM_K_PER_JOB narrow_config = 1" "MAX_JOBS narrow_config = 128" "M narrow_config = 3"
  "kmax_actual_of narrow_config 1 = 3" "kmax_actual_of narrow_config 3 = 4"
  by (simp_all add: narrow_config_def N_def MAX_K_def job_k_range_size_def K_STEP_def
        kmax_actual_of_def)

lemma range_1_4_2: "py_range 1 4 2 = [1, 3]"
  by (simp add: py_range.simps)

lemma narrow_config_ids:
  "range_ids 8 1 3 = [''8_1'']" "range_ids 8 3 4 = [''8_3'']"
  by (simp_all add: range_ids_def K_STEP_def py_range.simps mk_id_def str_of_int_def
        digits.simps digit_char_def)

lemma load_partial_line: "load_tracked_ids False (Some ''8_1'') = Inr {''8_1''}"
  by (simp add: load_eval)

lemma load_joined_line: "load_tracked_ids False (Some ''8_18_3\<newline>'') = Inr {''8_18_3''}"
  by (simp add: load_eval)

lemma process_range_narrow_1:
  assumes "submitted_count s < 128" "''8_1'' \<notin> started_ids_set s"
  shows "process_range narrow_config env 1 s =
     (let s1 = mark_started (append_io env 1) [''8_1''] s in
      if config_error env 1
      then (True, s1\<lparr>error_count := error_count s1 + 1,
                     trace := trace s1 @ [ConfigWrite 1 3 False, Stderr (ConfigWriteError 1 3)]\<rparr>)
      else submit_job (qsub_io env 1) 1 3 [''8_1'']
             (s1\<lparr>trace := trace s1 @ [ConfigWrite 1 3 True]\<rparr>))"
  using process_range_clear [of s narrow_config 1 env] assms
  by (simp add: narrow_config_ids narrow_config_values Let_def)

lemma process_range_narrow_3:
  assumes "submitted_count s < 128" "''8_3'' \<notin> started_ids_set s"
  shows "process_range narrow_config env 3 s =
     (let s1 = mark_started (append_io env 3) [''8_3''] s in
      if config_error env 3
      then (True, s1\<lparr>error_count := error_count s1 + 1,
                     trace := trace s1 @ [ConfigWrite 3 4 False, Stderr (ConfigWriteError 3 4)]\<rparr>)
      else submit_job (qsub_io env 3) 3 4 [''8_3'']
             (s1\<lparr>trace := trace s1 @ [ConfigWrite 3 4 True]\<rparr>))"
  using process_range_clear [of s narrow_config 3 env] assms
  by (simp add: narrow_config_ids narrow_config_values Let_def)

lemma process_range_narrow_skip_1:
  assumes "submitted_count s < 128" "''8_1'' \<in> started_ids_set s"
  shows "process_range narrow_config env 1 s
           = (True, s\<lparr>skipped_ranges_count := skipped_ranges_count s + 1\<rparr>)"
  using process_range_skip [of s narrow_config 1 env] assms
  by (simp add: narrow_config_ids narrow_config_values)


text \<open>
  C3 as stated fails: on a ledger whose last line \<^verbatim>\<open>8_1\<close> has no line break, the
  first run skips \<open>[1, 3)\<close>, appends the ID of \<open>[3, 4)\<close> with no error and submits the
  range. The ledger then holds the one line \<^verbatim>\<open>8_18_3\<close>, and the second run appends
  and submits \<open>[3, 4)\<close> again, after \<open>[1, 3)\<close>.
\<close>

theorem marked_range_submitted_again:
  "dispatcher narrow_config calm_env (Some ''8_1'') =
     Inr \<lparr>started_file = Some ''8_18_3\<newline>'',
          started_ids_set = {''8_1'', ''8_3''},
          submitted_count = 1, skipped_ranges_count = 1, error_count = 0,
          trace = [LedgerAppend [''8_3''] IoOk,
                   ConfigWrite 3 4 True, QsubCall 3 4 [''8_3''] (QsubOk ''1.pbs'')]\<rparr>
   \<and> dispatcher narrow_config calm_env (Some ''8_18_3\<newline>'') =
     Inr \<lparr>started_file = Some ''8_18_3\<newline>8_1\<newline>8_3\<newline>'',
          started_ids_set = {''8_18_3'', ''8_1'', ''8_3''},
          submitted_count = 2, skipped_ranges_count = 0, error_count = 0,
          trace = [LedgerAppend [''8_1''] IoOk,
                   ConfigWrite 1 3 True, QsubCall 1 3 [''8_1''] (QsubOk ''1.pbs''),
                   LedgerAppend [''8_3''] IoOk,
                   ConfigWrite 3 4 True, QsubCall 3 4 [''8_3''] (QsubOk ''1.pbs'')]\<rparr>"
  by (simp add: dispatcher_def touch_def load_partial_line load_joined_line range_1_4_2
        narrow_config_values calm_env_values
        process_range_narrow_1 process_range_narrow_3 process_range_narrow_skip_1
        mark_started_def append_ids_to_file_def
        submit_job_def Let_def insert_commute id_lines_def)



section \<open>Partitioning the space into ranges\<close>

lemma py_range_gap:
  assumes "0 < w" "a \<in> set (py_range 1 hi w)" "a' \<in> set (py_range 1 hi w)" "a < a'"
  shows "a + w \<le> a'"
proof -
  from assms(2,3) py_range_pos_mem [OF assms(1)]
  have "(a - 1) mod w = 0" "(a' - 1) mod w = 0" by blast+
  then have d1: "w dvd a - 1" and d2: "w dvd a' - 1"
    by (simp_all add: mod_eq_0_iff_dvd)
  have e: "(a' - 1) - (a - 1) = a' - a" by simp
  have "w dvd (a' - 1) - (a - 1)"
    using d2 d1 by (rule dvd_diff)
  then have "w dvd a' - a"
    unfolding e .
  moreover have "0 < a' - a" using assms(4) by simp
  ultimately have "w \<le> a' - a" by (rule zdvd_imp_le)
  then show ?thesis by simp
qed

lemma py_range_covers:
  assumes "0 < w" "1 \<le> x" "x < hi"
  shows "\<exists>a \<in> set (py_range 1 hi w). a \<le> x \<and> x < a + w"
proof -
  define r where "r = (x - 1) mod w"
  define a where "a = x - r"
  have r0: "0 \<le> r" unfolding r_def using assms(1) by (rule pos_mod_sign)
  have r1: "r < w" unfolding r_def using assms(1) by (rule pos_mod_bound)
  have r2: "r \<le> x - 1"
    unfolding r_def using assms(2) by (intro zmod_le_nonneg_dividend) linarith
  have lo: "1 \<le> a" unfolding a_def using r2 by linarith
  have "a - 1 = (x - 1) - (x - 1) mod w" unfolding a_def r_def by linarith
  also have "\<dots> = w * ((x - 1) div w)" by (rule minus_mod_eq_mult_div)
  finally have "a - 1 = w * ((x - 1) div w)" .
  then have z: "(a - 1) mod w = 0" by (metis mod_mult_self1_is_0)
  have hi: "a < hi" unfolding a_def using r0 assms(3) by linarith
  have "a \<in> set (py_range 1 hi w)"
    unfolding py_range_pos_mem [OF assms(1)] using lo hi z by (intro conjI)
  moreover have "a \<le> x \<and> x < a + w" unfolding a_def using r0 r1 by linarith
  ultimately show ?thesis by blast
qed

lemma partition_covers_once:
  assumes "0 < w"
  shows "covers_once (map (\<lambda>a. (a, min (a + w) hi)) (py_range 1 hi w)) hi w"
proof -
  let ?ks = "py_range 1 hi w"
  let ?rs = "map (\<lambda>a. (a, min (a + w) hi)) ?ks"
  have mem: "a \<in> set ?ks \<Longrightarrow> 1 \<le> a \<and> a < hi" for a
    using py_range_pos_mem [OF assms] by blast
  have starts: "sorted_wrt (<) (map fst ?rs)"
    using py_range_pos_sorted [OF assms, of 1 hi] by (simp add: comp_def)
  have "sorted_wrt (\<lambda>a a'. min (a + w) hi \<le> a') ?ks"
  proof (rule sorted_wrt_mono_rel [OF _ py_range_pos_sorted [OF assms]])
    fix a a'
    assume "a \<in> set ?ks" "a' \<in> set ?ks" "a < a'"
    from py_range_gap [OF assms this] show "min (a + w) hi \<le> a'" by simp
  qed
  then have apart: "sorted_wrt (\<lambda>r r'. snd r \<le> fst r') ?rs"
    by (simp add: sorted_wrt_map)
  have union: "(\<Union>(a, b) \<in> set ?rs. {a..<b}) = {1..<hi}"
  proof (intro set_eqI iffI)
    fix x
    assume "x \<in> (\<Union>(a, b) \<in> set ?rs. {a..<b})"
    then obtain a where "a \<in> set ?ks" "a \<le> x" "x < min (a + w) hi" by auto
    with mem [of a] show "x \<in> {1..<hi}" by simp
  next
    fix x
    assume "x \<in> {1..<hi}"
    then have "1 \<le> x" "x < hi" by simp_all
    from py_range_covers [OF assms this] obtain a where
      "a \<in> set ?ks" "a \<le> x" "x < a + w" by blast
    with \<open>x < hi\<close> have "(a, min (a + w) hi) \<in> set ?rs \<and> x \<in> {a..<min (a + w) hi}"
      by simp
    then show "x \<in> (\<Union>(a, b) \<in> set ?rs. {a..<b})" by blast
  qed
  have widths: "\<forall>(a, b) \<in> set ?rs. a < b \<and> b - a \<le> w"
  proof (intro ballI, clarify)
    fix a b
    assume "(a, b) \<in> set ?rs"
    then have m: "a \<in> set ?ks" and b: "b = min (a + w) hi"
      by (simp_all add: image_iff)
    from mem [OF m] assms show "a < b \<and> b - a \<le> w"
      unfolding b by (simp add: min_def)
  qed
  show ?thesis
    unfolding covers_once_def using starts apart union widths by (intro conjI)
qed

lemma job_ranges_covers_once:
  assumes "0 < NUM_K_PER_JOB cfg"
  shows "covers_once (job_ranges cfg) (MAX_K cfg) (NUM_K_PER_JOB cfg * K_STEP)"
proof -
  have "0 < job_k_range_size cfg"
    using assms by (simp add: job_k_range_size_def K_STEP_def)
  from partition_covers_once [OF this, of "MAX_K cfg"] show ?thesis
    by (simp add: job_ranges_def kmax_actual_of_def job_k_range_size_def)
qed

lemma MAX_K_half: "0 < M cfg \<Longrightarrow> MAX_K cfg = N cfg div 2"
  by (cases "M cfg") (simp_all add: MAX_K_def N_def)

lemma py_range_count: "py_range 0 n 1 = map int [0..<nat n]"
  using py_range_pos_closed [of 1 0 n] by simp

lemma num_batches_eq:
  fixes max_k k_step k_per_batch :: int
  assumes "0 < k_step" "0 < k_per_batch"
  shows "(max_k - 1) div k_step div k_per_batch + 1
           = (max_k + k_per_batch * k_step - 1) div (k_per_batch * k_step)"
proof -
  have a: "(max_k - 1) div k_step div k_per_batch = (max_k - 1) div (k_step * k_per_batch)"
    using assms(2) by (simp add: zdiv_zmult2_eq)
  have b: "(max_k - 1) div (k_step * k_per_batch) + 1
      = (max_k - 1 + k_step * k_per_batch) div (k_step * k_per_batch)"
    using assms by simp
  have c: "max_k - 1 + k_step * k_per_batch = max_k + k_per_batch * k_step - 1"
    by (simp add: algebra_simps)
  have d: "k_step * k_per_batch = k_per_batch * k_step"
    by simp
  show ?thesis
    unfolding a b c unfolding d ..
qed

lemma gen_batches_partition:
  assumes "0 < k_per_batch" "0 < k_step"
  shows "gen_batches m k_per_batch k_step
           = Some (map (\<lambda>a. (a, min (a + k_per_batch * k_step) (2 ^ m div 2 + 1)))
                    (py_range 1 (2 ^ m div 2 + 1) (k_per_batch * k_step)))"
proof -
  let ?max_k = "(2::int) ^ m div 2"
  let ?size = "k_per_batch * k_step"
  let ?n = "nat ((?max_k + 1 - 1 + ?size - 1) div ?size)"
  have sz: "0 < ?size" using assms by simp
  have r: "py_range 1 (?max_k + 1) ?size = map (\<lambda>i. 1 + int i * ?size) [0..<?n]"
    using py_range_pos_closed [OF sz, of 1 "?max_k + 1"] by simp
  have "gen_batches m k_per_batch k_step
      = Some (map (\<lambda>batch. (1 + batch * k_per_batch * k_step,
                 min (1 + batch * k_per_batch * k_step + k_per_batch * k_step) (?max_k + 1)))
              (map int [0..<?n]))"
    using assms
    by (simp add: gen_batches_def Let_def py_range_count num_batches_eq [OF assms(2,1)])
  also have "\<dots> = Some (map (\<lambda>a. (a, min (a + ?size) (?max_k + 1)))
                    (py_range 1 (?max_k + 1) ?size))"
    unfolding r by (simp add: algebra_simps)
  finally show ?thesis .
qed

text \<open>
  C6, as the code has it. The dispatcher (\<open>N = 2 ^ M\<close> with \<open>M\<close> positive, a positive
  \<^verbatim>\<open>NUM_K_PER_JOB\<close>) visits ranges that cover \<open>[1, N div 2)\<close> once: strictly increasing
  starts, no overlap, union \<open>[1, N div 2)\<close>, every range non-empty and at most
  \<^verbatim>\<open>NUM_K_PER_JOB * K_STEP\<close> wide. The batches of \<^verbatim>\<open>generate_config_files\<close> (positive
  \<^verbatim>\<open>k_per_batch\<close> and \<^verbatim>\<open>k_step\<close>) cover \<open>[1, n div 2 + 1)\<close> once in the same sense:
  their last batch is clipped at \<^verbatim>\<open>max_k + 1\<close>.
\<close>

theorem partition_covers_space:
  assumes "0 < M cfg" and "0 < NUM_K_PER_JOB cfg" and "0 < k_per_batch" and "0 < k_step"
  shows "covers_once (job_ranges cfg) (N cfg div 2) (NUM_K_PER_JOB cfg * K_STEP)
       \<and> (\<exists>batches. gen_batches m k_per_batch k_step = Some batches
            \<and> covers_once batches (2 ^ m div 2 + 1) (k_per_batch * k_step))"
proof
  show "covers_once (job_ranges cfg) (N cfg div 2) (NUM_K_PER_JOB cfg * K_STEP)"
    using job_ranges_covers_once [OF assms(2)] MAX_K_half [OF assms(1)] by simp
next
  have "0 < k_per_batch * k_step" using assms(3,4) by simp
  from partition_covers_once [OF this, of "2 ^ m div 2 + 1"]
    gen_batches_partition [OF assms(3,4), of m]
  show "\<exists>batches. gen_batches m k_per_batch k_step = Some batches
            \<and> covers_once batches (2 ^ m div 2 + 1) (k_per_batch * k_step)"
    by simp
qed

lemma range_0_1_1: "py_range 0 1 1 = [0]"
  by (simp add: py_range.simps)

text \<open>
  C6 as stated fails for \<^verbatim>\<open>generate_config_files\<close>: for \<open>n = 2 ^ 2\<close> its one batch is
  \<open>[1, 3)\<close>, which is not \<open>[1, n div 2)\<close>.
\<close>

theorem gen_batches_beyond_half:
  "gen_batches 2 1024 2 = Some [(1, 3)] \<and> {1..<3} \<noteq> {1..<(2::int) ^ 2 div 2}"
proof
  show "gen_batches 2 1024 2 = Some [(1, 3)]"
    by (simp add: gen_batches_def Let_def range_0_1_1)
next
  have "(2::int) \<in> {1..<3}" by simp
  moreover have "(2::int) \<notin> {1..<(2::int) ^ 2 div 2}" by simp
  ultimately show "{1..<3} \<noteq> {1..<(2::int) ^ 2 div 2}" by metis
qed

lemma job_ranges_small: "job_ranges small_config = [(1, 5), (5, 8)]"
  by (simp add: job_ranges_def range_1_8_4 small_config_values)

lemma range_0_2_1: "py_range 0 2 1 = [0, 1]"
  by (simp add: py_range.simps)

lemma gen_batches_small: "gen_batches 4 2 2 = Some [(1, 5), (5, 9)]"
  by (simp add: gen_batches_def Let_def range_0_2_1)

text \<open>C6 at the example: the dispatcher's ranges for \<open>N = 16\<close> and the generator's batches.\<close>

theorem partition_covers_space_witness:
  "job_ranges small_config = [(1, 5), (5, 8)]
   \<and> covers_once [(1, 5), (5, 8)] (N small_config div 2) (NUM_K_PER_JOB small_config * K_STEP)
   \<and> gen_batches 4 2 2 = Some [(1, 5), (5, 9)]
   \<and> covers_once [(1, 5), (5, 9)] (2 ^ 4 div 2 + 1) (2 * 2)"
proof -
  have a: "0 < M small_config" by (simp add: small_config_def)
  have b: "0 < NUM_K_PER_JOB small_config" by (simp add: small_config_values)
  have c: "(0::int) < 2" by simp
  note t = partition_covers_space [OF a b c c, of 4]
  from t have "covers_once (job_ranges small_config) (N small_config div 2)
      (NUM_K_PER_JOB small_config * K_STEP)"
    by (rule conjunct1)
  then have d: "covers_once [(1, 5), (5, 8)] (N small_config div 2)
      (NUM_K_PER_JOB small_config * K_STEP)"
    unfolding job_ranges_small .
  from t have "\<exists>batches. gen_batches 4 2 2 = Some batches
      \<and> covers_once batches (2 ^ 4 div 2 + 1) (2 * 2)"
    by (rule conjunct2)
  then have e: "covers_once [(1, 5), (5, 9)] (2 ^ 4 div 2 + 1) (2 * 2)"
    unfolding gen_batches_small by simp
  show ?thesis
    using job_ranges_small d gen_batches_small e by (intro conjI)
qed

end
